theory Spec2Isabelle
  imports Main
begin

section \<open>Strings\<close>

text \<open>
  Source strings are modelled as \<^typ>\<open>string\<close>. The model covers ASCII text: the white
  space of \<open>trim\<close> and of the regular expression class \<open>\s\<close> is the ASCII part of
  the ECMAScript set (tab, line feed, vertical tab, form feed, carriage return, space), the class
  \<open>\w\<close> is \<open>[A-Za-z0-9_]\<close>, and case conversion acts on the ASCII letters.
\<close>

definition isSpace :: "char \<Rightarrow> bool" where
  "isSpace c \<longleftrightarrow> c \<in> set [CHR 0x09, CHR 0x0A, CHR 0x0B, CHR 0x0C, CHR 0x0D, CHR '' '']"

definition isLineTerminator :: "char \<Rightarrow> bool" where
  "isLineTerminator c \<longleftrightarrow> c = CHR 0x0A \<or> c = CHR 0x0D"

definition isUpperAZ :: "char \<Rightarrow> bool" where
  "isUpperAZ c \<longleftrightarrow> c \<in> set ''ABCDEFGHIJKLMNOPQRSTUVWXYZ''"

definition isLowerAZ :: "char \<Rightarrow> bool" where
  "isLowerAZ c \<longleftrightarrow> c \<in> set ''abcdefghijklmnopqrstuvwxyz''"

definition isDigit :: "char \<Rightarrow> bool" where
  "isDigit c \<longleftrightarrow> c \<in> set ''0123456789''"

text \<open>The class \<open>\w\<close>, which is also \<open>[a-zA-Z0-9_]\<close>.\<close>

definition isWord :: "char \<Rightarrow> bool" where
  "isWord c \<longleftrightarrow> isLowerAZ c \<or> isUpperAZ c \<or> isDigit c \<or> c = CHR ''_''"

definition upperChar :: "char \<Rightarrow> char" where
  "upperChar c = (if isLowerAZ c then char_of (of_char c - (32::nat)) else c)"

definition lowerChar :: "char \<Rightarrow> char" where
  "lowerChar c = (if isUpperAZ c then char_of (of_char c + (32::nat)) else c)"

definition toUpperCase :: "string \<Rightarrow> string" where
  "toUpperCase s = map upperChar s"

definition toLowerCase :: "string \<Rightarrow> string" where
  "toLowerCase s = map lowerChar s"

definition trim :: "string \<Rightarrow> string" where
  "trim s = rev (dropWhile isSpace (rev (dropWhile isSpace s)))"

definition startsWith :: "string \<Rightarrow> string \<Rightarrow> bool" where
  "startsWith s p \<longleftrightarrow> take (length p) s = p"

definition endsWith :: "string \<Rightarrow> string \<Rightarrow> bool" where
  "endsWith s p \<longleftrightarrow> length p \<le> length s \<and> drop (length s - length p) s = p"

fun includesStr :: "string \<Rightarrow> string \<Rightarrow> bool" where
  "includesStr [] p = (p = [])"
| "includesStr (c # cs) p = (startsWith (c # cs) p \<or> includesStr cs p)"

text \<open>\<open>s.split(sep)\<close> for a one-character separator, generalised to a predicate.\<close>

fun splitWhen :: "(char \<Rightarrow> bool) \<Rightarrow> string \<Rightarrow> string list" where
  "splitWhen P [] = [[]]"
| "splitWhen P (c # cs) =
     (if P c then [] # splitWhen P cs
      else (case splitWhen P cs of [] \<Rightarrow> [[c]] | w # ws \<Rightarrow> (c # w) # ws))"

definition splitChar :: "char \<Rightarrow> string \<Rightarrow> string list" where
  "splitChar sep s = splitWhen (\<lambda>c. c = sep) s"

text \<open>\<open>s.split(/\s+/).filter(p => p)\<close>: the maximal runs of non-space characters.\<close>

definition tokens :: "string \<Rightarrow> string list" where
  "tokens s = filter (\<lambda>p. p \<noteq> []) (splitWhen isSpace s)"

text \<open>
  \<open>s.replace(/\/\/.*$/, '')\<close>: the leftmost \<open>//\<close> that is followed by no line terminator up
  to the end of the string starts the match (\<open>.\<close> does not match a line terminator and
  \<open>$\<close> is the end of the string).
\<close>

fun stripComment :: "string \<Rightarrow> string" where
  "stripComment [] = []"
| "stripComment (c # cs) =
     (if startsWith (c # cs) ''//'' \<and> \<not> list_ex isLineTerminator (drop 1 cs) then []
      else c # stripComment cs)"

text \<open>\<open>s.replace(/[;,\/\/].*$/, '')\<close>: the character class holds \<open>;\<close>, \<open>,\<close> and \<open>/\<close>.\<close>

definition isValueSeparator :: "char \<Rightarrow> bool" where
  "isValueSeparator c \<longleftrightarrow> c = CHR '';'' \<or> c = CHR '','' \<or> c = CHR ''/''"

fun cutAtSeparator :: "string \<Rightarrow> string" where
  "cutAtSeparator [] = []"
| "cutAtSeparator (c # cs) =
     (if isValueSeparator c \<and> \<not> list_ex isLineTerminator cs then []
      else c # cutAtSeparator cs)"

text \<open>\<open>s.replace(/[;,]/, '')\<close>: only the first occurrence goes.\<close>

fun removeFirstSemiComma :: "string \<Rightarrow> string" where
  "removeFirstSemiComma [] = []"
| "removeFirstSemiComma (c # cs) =
     (if c = CHR '';'' \<or> c = CHR '','' then cs else c # removeFirstSemiComma cs)"

text \<open>
  \<open>line.match(/KW\s+(\w+)/)?.[1] || ''\<close>: the leftmost place where the keyword is followed
  by at least one space and then a word character; the capture is the whole run of word
  characters. The greedy \<open>\s+\<close> cannot give a space back to \<open>\w+\<close>, so a place where the
  spaces are followed by a non-word character does not match.
\<close>

fun matchNameAfter :: "string \<Rightarrow> string \<Rightarrow> string option" where
  "matchNameAfter kw [] = None"
| "matchNameAfter kw (c # cs) =
     (let r = drop (length kw) (c # cs); r' = dropWhile isSpace r
      in if startsWith (c # cs) kw \<and> r \<noteq> r' \<and> takeWhile isWord r' \<noteq> []
         then Some (takeWhile isWord r')
         else matchNameAfter kw cs)"

definition nameAfter :: "string \<Rightarrow> string \<Rightarrow> string" where
  "nameAfter kw line = (case matchNameAfter kw line of Some n \<Rightarrow> n | None \<Rightarrow> [])"

text \<open>\<open><(\w+)>\<close> read at the start of a string whose opening \<open><\<close> was just consumed.\<close>

definition wordThenGt :: "string \<Rightarrow> string option" where
  "wordThenGt r =
     (let w = takeWhile isWord r
      in if w \<noteq> [] \<and> startsWith (dropWhile isWord r) ''>'' then Some w else None)"

text \<open>\<open>line.match(/(?:Set|List)<(\w+)>/)\<close>, the capture of the leftmost match.\<close>

definition collectionAt :: "string \<Rightarrow> string option" where
  "collectionAt s =
     (if startsWith s ''Set<'' then wordThenGt (drop 4 s)
      else if startsWith s ''List<'' then wordThenGt (drop 5 s)
      else None)"

fun matchCollection :: "string \<Rightarrow> string option" where
  "matchCollection [] = None"
| "matchCollection (c # cs) =
     (case collectionAt (c # cs) of Some t \<Rightarrow> Some t | None \<Rightarrow> matchCollection cs)"

text \<open>
  \<open>s.replace(/KW<\w+>/g, rep)\<close> with \<open>kw\<close> the opening text \<open>KW<\<close>: every match, left to
  right, is replaced; the scan goes on after the match.
\<close>

function replaceGeneric :: "string \<Rightarrow> string \<Rightarrow> string \<Rightarrow> string" where
  "replaceGeneric kw rep [] = []"
| "replaceGeneric kw rep (c # cs) =
     (case (if startsWith (c # cs) kw then wordThenGt (drop (length kw) (c # cs)) else None) of
        Some w \<Rightarrow> rep @ replaceGeneric kw rep (drop (length kw + length w + 1) (c # cs))
      | None \<Rightarrow> c # replaceGeneric kw rep cs)"
  by pat_completeness auto
termination
  by (relation "measure (\<lambda>(kw, rep, s). length s)") auto

text \<open>
  \<open>s.replace(/\s*nullable\s*/g, '')\<close>: a match starts where the spaces from that place
  on are followed by \<open>nullable\<close>, and takes all spaces after it.
\<close>

function removeNullable :: "string \<Rightarrow> string" where
  "removeNullable [] = []"
| "removeNullable (c # cs) =
     (let r = dropWhile isSpace (c # cs)
      in if startsWith r ''nullable'' then removeNullable (dropWhile isSpace (drop 8 r))
         else c # removeNullable cs)"
  by pat_completeness auto
termination
proof (relation "measure length")
  show "wf (measure length)" by simp
next
  fix c :: char and cs r :: string
  assume r: "r = dropWhile isSpace (c # cs)" and "startsWith r ''nullable''"
  then have "8 \<le> length r"
    by (auto simp: startsWith_def dest: arg_cong [where f = length])
  moreover have "length r \<le> length (c # cs)"
    unfolding r by (rule length_dropWhile_le)
  moreover have "length (dropWhile isSpace (drop 8 r)) \<le> length (drop 8 r)"
    by (rule length_dropWhile_le)
  ultimately show "(dropWhile isSpace (drop 8 r), c # cs) \<in> measure length"
    by simp
next
  fix c :: char and cs r :: string
  show "(cs, c # cs) \<in> measure length" by simp
qed

text \<open>\<open>s.replace(/^-/, '')\<close>.\<close>

definition removeLeadingDash :: "string \<Rightarrow> string" where
  "removeLeadingDash s = (if startsWith s ''-'' then drop 1 s else s)"

section \<open>The CML model\<close>

record named =
  name :: string

record CMLProperty = named +
  type :: string
  nullable :: bool
  isRelation :: bool
  isCollection :: bool
  isEnum :: bool

record CMLEnum = named +
  enumValues :: "string list"

record CMLValueObject = named +
  properties :: "CMLProperty list"

record CMLEntity = CMLValueObject +
  isAggregateRoot :: bool

record CMLAggregate = named +
  entities :: "CMLEntity list"
  valueObjects :: "CMLValueObject list"
  enums :: "CMLEnum list"

record CMLBoundedContext = named +
  aggregates :: "CMLAggregate list"

type_synonym CMLModel = "CMLBoundedContext list"

section \<open>The property parser\<close>

definition parseProperty :: "string \<Rightarrow> CMLProperty option" where
  "parseProperty line0 =
     (let line = trim (stripComment line0)
      in if line = [] \<or> line = ''{'' \<or> line = ''}'' \<or> line = ''aggregateRoot'' then None
         else
           let isNullable = includesStr line ''nullable'';
               isRel = startsWith line ''-'';
               isColl = includesStr line ''Set<'' \<or> includesStr line ''List<'';
               hasEnumMarker = includesStr line ''^'';
               collectionType =
                 (if isColl then (case matchCollection line of Some t \<Rightarrow> t | None \<Rightarrow> [])
                  else []);
               cleanLine =
                 trim (removeLeadingDash
                   (replaceGeneric ''List<'' collectionType
                     (replaceGeneric ''Set<'' collectionType (removeNullable line))));
               cleanLine' = filter (\<lambda>c. c \<noteq> CHR ''^'') cleanLine;
               parts = tokens cleanLine'
           in if length parts < 2 then None
              else
                let ty = parts ! 0;
                    nm = removeFirstSemiComma (parts ! 1);
                    finalType = (if isColl \<and> collectionType \<noteq> [] then collectionType else ty)
                in Some \<lparr>name = nm, type = finalType, nullable = isNullable,
                         isRelation = isRel, isCollection = isColl, isEnum = hasEnumMarker\<rparr>)"

section \<open>The model parser\<close>

text \<open>
  \<open>parseCML\<close> builds the model by mutating objects that its cursors alias: an aggregate
  object, say, is reached both from its bounded context's \<open>aggregates\<close> array and from
  \<open>currentAggregate\<close>, and it may be in no array at all. The state of the loop is therefore a
  store: one list of cells per kind of object, an object's address being its index, and
  references are addresses. Properties and enumeration values are immutable once pushed and are
  kept by value.
\<close>

record AggregateCell = named +
  entityRefs :: "nat list"
  valueObjectRefs :: "nat list"
  enumRefs :: "nat list"

record ContextCell = named +
  aggregateRefs :: "nat list"

record ParserState =
  contextStore :: "ContextCell list"
  aggregateStore :: "AggregateCell list"
  entityStore :: "CMLEntity list"
  valueObjectStore :: "CMLValueObject list"
  enumStore :: "CMLEnum list"
  boundedContexts :: "nat list"
  currentBoundedContext :: "nat option"
  currentAggregate :: "nat option"
  currentEntity :: "nat option"
  currentValueObject :: "nat option"
  currentEnum :: "nat option"

definition initialState :: ParserState where
  "initialState =
     \<lparr>contextStore = [], aggregateStore = [], entityStore = [], valueObjectStore = [],
      enumStore = [], boundedContexts = [], currentBoundedContext = None,
      currentAggregate = None, currentEntity = None, currentValueObject = None,
      currentEnum = None\<rparr>"

text \<open>The five declaration lines.\<close>

definition openBoundedContext :: "ParserState \<Rightarrow> string \<Rightarrow> ParserState" where
  "openBoundedContext s line =
     (let a = length (contextStore s)
      in s\<lparr>contextStore := contextStore s @ [\<lparr>name = nameAfter ''BoundedContext'' line,
                                                 aggregateRefs = []\<rparr>],
            boundedContexts := boundedContexts s @ [a],
            currentBoundedContext := Some a\<rparr>)"

definition openAggregate :: "ParserState \<Rightarrow> string \<Rightarrow> ParserState" where
  "openAggregate s line =
     (let a = length (aggregateStore s);
          s' = s\<lparr>aggregateStore := aggregateStore s @ [\<lparr>name = nameAfter ''Aggregate'' line,
                     entityRefs = [], valueObjectRefs = [], enumRefs = []\<rparr>],
                 currentAggregate := Some a\<rparr>
      in case currentBoundedContext s of
           None \<Rightarrow> s'
         | Some c \<Rightarrow>
             s'\<lparr>contextStore := (contextStore s)
                   [c := (contextStore s ! c)
                      \<lparr>aggregateRefs := aggregateRefs (contextStore s ! c) @ [a]\<rparr>]\<rparr>)"

definition openEntity :: "ParserState \<Rightarrow> string \<Rightarrow> ParserState" where
  "openEntity s line =
     (let a = length (entityStore s);
          s' = s\<lparr>entityStore := entityStore s @ [\<lparr>name = nameAfter ''Entity'' line,
                     properties = [], isAggregateRoot = False\<rparr>],
                 currentEntity := Some a\<rparr>
      in case currentAggregate s of
           None \<Rightarrow> s'
         | Some g \<Rightarrow>
             s'\<lparr>aggregateStore := (aggregateStore s)
                   [g := (aggregateStore s ! g)
                      \<lparr>entityRefs := entityRefs (aggregateStore s ! g) @ [a]\<rparr>]\<rparr>)"

definition openValueObject :: "ParserState \<Rightarrow> string \<Rightarrow> ParserState" where
  "openValueObject s line =
     (let a = length (valueObjectStore s);
          s' = s\<lparr>valueObjectStore := valueObjectStore s @ [\<lparr>name = nameAfter ''ValueObject'' line,
                     properties = []\<rparr>],
                 currentValueObject := Some a\<rparr>
      in case currentAggregate s of
           None \<Rightarrow> s'
         | Some g \<Rightarrow>
             s'\<lparr>aggregateStore := (aggregateStore s)
                   [g := (aggregateStore s ! g)
                      \<lparr>valueObjectRefs := valueObjectRefs (aggregateStore s ! g) @ [a]\<rparr>]\<rparr>)"

definition openEnum :: "ParserState \<Rightarrow> string \<Rightarrow> ParserState" where
  "openEnum s line =
     (let a = length (enumStore s);
          s' = s\<lparr>enumStore := enumStore s @ [\<lparr>name = nameAfter ''enum'' line, enumValues = []\<rparr>],
                 currentEnum := Some a\<rparr>
      in case currentAggregate s of
           None \<Rightarrow> s'
         | Some g \<Rightarrow>
             s'\<lparr>aggregateStore := (aggregateStore s)
                   [g := (aggregateStore s ! g)
                      \<lparr>enumRefs := enumRefs (aggregateStore s ! g) @ [a]\<rparr>]\<rparr>)"

text \<open>
  A closing line: each of the three inner cursors is reset if it is set. The look-ahead that
  the source computes afterwards for the aggregate has an empty body and changes nothing.
\<close>

definition closeScopes :: "ParserState \<Rightarrow> ParserState" where
  "closeScopes s =
     (let s1 = (if currentEnum s \<noteq> None then s\<lparr>currentEnum := None\<rparr> else s);
          s2 = (if currentValueObject s1 \<noteq> None then s1\<lparr>currentValueObject := None\<rparr> else s1);
          s3 = (if currentEntity s2 \<noteq> None then s2\<lparr>currentEntity := None\<rparr> else s2)
      in s3)"

text \<open>The values that a line inside an open enumeration contributes.\<close>

definition enumLineValues :: "string \<Rightarrow> string list" where
  "enumLineValues line =
     (let cleanLine = trim (stripComment line)
      in if cleanLine \<noteq> [] \<and> cleanLine \<noteq> ''}'' \<and> \<not> startsWith cleanLine ''enum ''
         then
           if includesStr cleanLine '',''
           then filter (\<lambda>v. v \<noteq> [] \<and> v \<noteq> ''}'')
                  (map (\<lambda>v. trim (cutAtSeparator (trim v))) (splitChar (CHR '','') cleanLine))
           else
             let v = trim (cutAtSeparator cleanLine)
             in if v \<noteq> [] \<and> v \<noteq> ''}'' \<and> \<not> includesStr v ''enum'' then [v] else []
         else [])"

definition pushEnumValues :: "ParserState \<Rightarrow> nat \<Rightarrow> string list \<Rightarrow> ParserState" where
  "pushEnumValues s e vs =
     s\<lparr>enumStore := (enumStore s)
         [e := (enumStore s ! e)\<lparr>enumValues := enumValues (enumStore s ! e) @ vs\<rparr>]\<rparr>"

definition pushEntityProperty :: "ParserState \<Rightarrow> string \<Rightarrow> ParserState" where
  "pushEntityProperty s line =
     (case currentEntity s of
        None \<Rightarrow> s
      | Some e \<Rightarrow>
          (case parseProperty line of
             None \<Rightarrow> s
           | Some p \<Rightarrow>
               s\<lparr>entityStore := (entityStore s)
                   [e := (entityStore s ! e)
                      \<lparr>properties := properties (entityStore s ! e) @ [p]\<rparr>]\<rparr>))"

definition pushValueObjectProperty :: "ParserState \<Rightarrow> string \<Rightarrow> ParserState" where
  "pushValueObjectProperty s line =
     (case currentValueObject s of
        None \<Rightarrow> s
      | Some v \<Rightarrow>
          (case parseProperty line of
             None \<Rightarrow> s
           | Some p \<Rightarrow>
               s\<lparr>valueObjectStore := (valueObjectStore s)
                   [v := (valueObjectStore s ! v)
                      \<lparr>properties := properties (valueObjectStore s ! v) @ [p]\<rparr>]\<rparr>))"

text \<open>One iteration of the loop over the lines, in the order of the source's tests.\<close>

definition isClosingLine :: "string \<Rightarrow> bool" where
  "isClosingLine line \<longleftrightarrow> line = ''}'' \<or> endsWith line ''}''"

definition parseLine :: "ParserState \<Rightarrow> string \<Rightarrow> ParserState" where
  "parseLine s line =
     (if startsWith line ''BoundedContext '' then openBoundedContext s line
      else if startsWith line ''Aggregate '' then openAggregate s line
      else if startsWith line ''Entity '' then openEntity s line
      else if startsWith line ''ValueObject '' then openValueObject s line
      else if startsWith line ''enum '' then openEnum s line
      else if isClosingLine line then closeScopes s
      else if line \<noteq> [] \<and> currentEnum s \<noteq> None
        then pushEnumValues s (the (currentEnum s)) (enumLineValues line)
      else if line = ''aggregateRoot'' \<and> currentEntity s \<noteq> None
        then s\<lparr>entityStore := (entityStore s)
               [the (currentEntity s) :=
                  (entityStore s ! the (currentEntity s))\<lparr>isAggregateRoot := True\<rparr>]\<rparr>
      else if line \<noteq> []
        then pushValueObjectProperty (pushEntityProperty s line) line
      else s)"

text \<open>The lines that the loop sees: trimmed, non-empty, not starting with \<open>//\<close>.\<close>

definition logicalLines :: "string \<Rightarrow> string list" where
  "logicalLines content =
     filter (\<lambda>line. line \<noteq> [] \<and> \<not> startsWith line ''//'')
       (map trim (splitChar (CHR 0x0A) content))"

definition parseLines :: "ParserState \<Rightarrow> string list \<Rightarrow> ParserState" where
  "parseLines s ls = foldl parseLine s ls"

text \<open>The returned model: what is reachable from \<open>boundedContexts\<close>.\<close>

definition aggregateAt :: "ParserState \<Rightarrow> nat \<Rightarrow> CMLAggregate" where
  "aggregateAt s g =
     (let cell = aggregateStore s ! g
      in \<lparr>name = name cell,
          entities = map (\<lambda>a. entityStore s ! a) (entityRefs cell),
          valueObjects = map (\<lambda>a. valueObjectStore s ! a) (valueObjectRefs cell),
          enums = map (\<lambda>a. enumStore s ! a) (enumRefs cell)\<rparr>)"

definition contextAt :: "ParserState \<Rightarrow> nat \<Rightarrow> CMLBoundedContext" where
  "contextAt s c =
     (let cell = contextStore s ! c
      in \<lparr>name = name cell, aggregates = map (aggregateAt s) (aggregateRefs cell)\<rparr>)"

definition modelOf :: "ParserState \<Rightarrow> CMLModel" where
  "modelOf s = map (contextAt s) (boundedContexts s)"

definition parseCML :: "string \<Rightarrow> CMLModel" where
  "parseCML content = modelOf (parseLines initialState (logicalLines content))"

section \<open>The generator: configuration and output\<close>

datatype Framework = Laravel | Doctrine | Plain

datatype ConstructorType = CtNone | CtRequired | CtAll

datatype DirectoryStructure = Flat | ByBoundedContext | ByAggregate | Psr4

datatype PhpVersion = Php81 | Php82 | Php83 | Php84

datatype TypeFolder = EnumFolder | ValueObjectFolder | EntityFolder

record MappingResult =
  subfolder :: string
  nameReplace :: "string option"

record RegexPatternMapping = MappingResult +
  pattern :: string
  typeFolder :: "TypeFolder option"

text \<open>Optional fields are options; an absent field is \<open>None\<close>.\<close>

record GeneratorConfig =
  framework :: Framework
  publicProperties :: bool
  addGetters :: bool
  addSetters :: bool
  namespace :: "string option"
  constructorType :: ConstructorType
  constructorPropertyPromotion :: bool
  doctrineCollectionDocstrings :: "bool option"
  doctrineAttributes :: "bool option"
  arrayDocstrings :: "bool option"
  directoryStructure :: "DirectoryStructure option"
  groupByType :: "bool option"
  phpVersion :: "PhpVersion option"
  readonlyValueObjects :: "bool option"
  regexPatternMappings :: "RegexPatternMapping list option"

datatype FileKind = EnumFile | ValueObjectFile | EntityFile

text \<open>The field \<open>type\<close> of a generated file is \<open>kind\<close> here.\<close>

record GeneratedFile =
  filename :: string
  path :: string
  content :: string
  kind :: FileKind

text \<open>\<open>parseFloat(phpVersion)\<close>, in tenths.\<close>

fun versionTenths :: "PhpVersion \<Rightarrow> nat" where
  "versionTenths Php81 = 81"
| "versionTenths Php82 = 82"
| "versionTenths Php83 = 83"
| "versionTenths Php84 = 84"

subsection \<open>What the generator builds with the PHP code-generation library\<close>

text \<open>
  The generator assembles each file through the builder objects of the library
  \<open>js-php-generator\<close> and hands the file object to the library's \<open>Printer\<close>. The builder
  objects are modelled as the data that the calls put into them, each \<open>add\<close> call appending
  to a list; every method is made public. The printer is a parameter of the model.
\<close>

datatype Visibility = Public | Private

record PhpParameter = named +
  paramType :: string
  paramNullable :: bool
  paramPromoted :: bool
  paramVisibility :: "Visibility option"
  paramReadOnly :: bool
  paramComments :: "string list"

record PhpMethod = named +
  parameters :: "PhpParameter list"
  returnType :: "string option"
  returnNullable :: bool
  body :: "string option"
  methodComments :: "string list"

record PhpProperty = named +
  propVisibility :: Visibility
  propType :: string
  propNullable :: bool
  propReadOnly :: bool
  propComments :: "string list"
  propAttributes :: "(string \<times> string list) list"

record PhpClass = named +
  classNamespace :: string
  classFinal :: bool
  classReadOnly :: bool
  classExtends :: "string option"
  classComments :: "string list"
  classAttributes :: "(string \<times> string list) list"
  classProperties :: "PhpProperty list"
  classMethods :: "PhpMethod list"

record PhpEnum = named +
  enumNamespace :: string
  backingType :: string
  cases :: "(string \<times> string) list"

datatype PhpFile = PhpEnumFile PhpEnum | PhpClassFile PhpClass

text \<open>The settings that the entity emitter gives its printer; the other emitters give none.\<close>

record PrinterOptions =
  wrapLength :: nat
  linesBetweenMethods :: nat
  linesBetweenProperties :: nat
  linesBetweenUseTypes :: nat

text \<open>
  The parts of a run that are not the generator's own code: the library's printer, and the
  regular expressions of the language runtime on patterns that the user supplies: \<open>regexTest p s\<close>
  is \<open>new RegExp(p).test(s)\<close> and \<open>regexRemoveFirst p s\<close> is
  \<open>s.replace(new RegExp(p), '')\<close>, with \<open>None\<close> for the exception that \<open>new RegExp\<close>
  throws on a malformed pattern.
\<close>

record Environment =
  printFile :: "PrinterOptions option \<Rightarrow> PhpFile \<Rightarrow> string"
  regexTest :: "string \<Rightarrow> string \<Rightarrow> bool option"
  regexRemoveFirst :: "string \<Rightarrow> string \<Rightarrow> string option"

subsection \<open>Paths and names\<close>

fun getDirectoryPath :: "string \<Rightarrow> string \<Rightarrow> DirectoryStructure \<Rightarrow> string" where
  "getDirectoryPath boundedContextName aggregateName Flat = []"
| "getDirectoryPath boundedContextName aggregateName ByBoundedContext = boundedContextName"
| "getDirectoryPath boundedContextName aggregateName ByAggregate =
     boundedContextName @ ''/'' @ aggregateName"
| "getDirectoryPath boundedContextName aggregateName Psr4 =
     boundedContextName @ ''/'' @ aggregateName"

fun getSubfolderForFile ::
  "Environment \<Rightarrow> string \<Rightarrow> TypeFolder \<Rightarrow> RegexPatternMapping list \<Rightarrow> MappingResult" where
  "getSubfolderForFile env fname fileType [] = \<lparr>subfolder = [], nameReplace = None\<rparr>"
| "getSubfolderForFile env fname fileType (mapping # mappings) =
     (if typeFolder mapping \<noteq> None \<and> typeFolder mapping \<noteq> Some fileType
        then getSubfolderForFile env fname fileType mappings
      else if pattern mapping = [] \<or> subfolder mapping = []
        then getSubfolderForFile env fname fileType mappings
      else (case regexTest env (pattern mapping) fname of
              Some True \<Rightarrow> \<lparr>subfolder = subfolder mapping, nameReplace = nameReplace mapping\<rparr>
            | Some False \<Rightarrow> getSubfolderForFile env fname fileType mappings
            | None \<Rightarrow> getSubfolderForFile env fname fileType mappings))"

definition applyNameReplace :: "Environment \<Rightarrow> string \<Rightarrow> string option \<Rightarrow> string" where
  "applyNameReplace env fname nameRep =
     (case nameRep of
        None \<Rightarrow> fname
      | Some r \<Rightarrow>
          if r = [] then fname
          else (case regexRemoveFirst env r fname of Some f \<Rightarrow> f | None \<Rightarrow> fname))"

text \<open>\<open>s.replace(/\/+$/, '')\<close>.\<close>

definition stripTrailingSlashes :: "string \<Rightarrow> string" where
  "stripTrailingSlashes s = rev (dropWhile (\<lambda>c. c = CHR ''/'') (rev s))"

fun joinWith :: "string \<Rightarrow> string list \<Rightarrow> string" where
  "joinWith sep [] = []"
| "joinWith sep [x] = x"
| "joinWith sep (x # y # ys) = x @ sep @ joinWith sep (y # ys)"

definition buildFilePath :: "string \<Rightarrow> string \<Rightarrow> string \<Rightarrow> string \<Rightarrow> string" where
  "buildFilePath basePath typeFolderName subfolderName fname =
     joinWith ''/''
       (filter (\<lambda>part. part \<noteq> [])
          [basePath, stripTrailingSlashes typeFolderName, stripTrailingSlashes subfolderName, fname])"

text \<open>
  The context and aggregate names are optional parameters in the source; the pipeline always
  passes them, and an empty string is as falsy as an absent one.
\<close>

definition defaultNamespace :: string where
  "defaultNamespace = ''App'' @ [CHR 0x5C] @ ''Models''"

definition buildNamespace :: "GeneratorConfig \<Rightarrow> string \<Rightarrow> string \<Rightarrow> string" where
  "buildNamespace config boundedContextName aggregateName =
     (let ns = (case namespace config of
                  None \<Rightarrow> defaultNamespace
                | Some n \<Rightarrow> if n = [] then defaultNamespace else n);
          ds = (case directoryStructure config of None \<Rightarrow> Flat | Some d \<Rightarrow> d)
      in if (ds = Psr4 \<or> ds = ByAggregate) \<and> boundedContextName \<noteq> [] \<and> aggregateName \<noteq> []
           then ns @ [CHR 0x5C] @ boundedContextName @ [CHR 0x5C] @ aggregateName
         else if ds = ByBoundedContext \<and> boundedContextName \<noteq> []
           then ns @ [CHR 0x5C] @ boundedContextName
         else ns)"

subsection \<open>Type mapping\<close>

text \<open>\<open>mapTypeToPHP\<close> as lines 1199 to 1230 have it: collections are decided first.\<close>

definition primitiveType :: "string \<Rightarrow> string option" where
  "primitiveType lowerType =
     (if lowerType = ''string'' then Some ''string''
      else if lowerType = ''int'' \<or> lowerType = ''integer'' then Some ''int''
      else if lowerType = ''bool'' \<or> lowerType = ''boolean'' then Some ''bool''
      else if lowerType = ''float'' \<or> lowerType = ''double'' then Some ''float''
      else if lowerType = ''datetime'' then Some ([CHR 0x5C] @ ''DateTime'')
      else if lowerType = ''date'' then Some ([CHR 0x5C] @ ''DateTime'')
      else if lowerType = ''clob'' then Some ''string''
      else None)"

definition doctrineCollection :: string where
  "doctrineCollection =
     ''Doctrine'' @ [CHR 0x5C] @ ''Common'' @ [CHR 0x5C] @ ''Collections'' @ [CHR 0x5C] @ ''Collection''"

definition eloquentCollection :: string where
  "eloquentCollection =
     ''Illuminate'' @ [CHR 0x5C] @ ''Database'' @ [CHR 0x5C] @ ''Eloquent'' @ [CHR 0x5C] @ ''Collection''"

definition mapTypeToPHP :: "GeneratorConfig \<Rightarrow> CMLProperty \<Rightarrow> string" where
  "mapTypeToPHP config prop =
     (if type prop = [] \<or> trim (type prop) = [] then ''mixed''
      else if isCollection prop then
        (if isRelation prop \<and> framework config = Doctrine then doctrineCollection
         else if isRelation prop \<and> framework config = Laravel then eloquentCollection
         else ''array'')
      else (case primitiveType (toLowerCase (type prop)) of
              Some t \<Rightarrow> t
            | None \<Rightarrow> type prop))"

text \<open>\<open>mapTypeToPHP\<close> as lines 1847 to 1878 have it: the primitive names are decided first.\<close>

definition mapTypeToPHP_primitivesFirst :: "GeneratorConfig \<Rightarrow> CMLProperty \<Rightarrow> string" where
  "mapTypeToPHP_primitivesFirst config prop =
     (if type prop = [] \<or> trim (type prop) = [] then ''mixed''
      else (case primitiveType (toLowerCase (type prop)) of
              Some t \<Rightarrow> t
            | None \<Rightarrow>
                if isCollection prop then
                  (if framework config = Doctrine then doctrineCollection
                   else if framework config = Laravel then eloquentCollection
                   else ''array'')
                else type prop))"

subsection \<open>Emitters\<close>

definition capitalize :: "string \<Rightarrow> string" where
  "capitalize str = (case str of [] \<Rightarrow> [] | c # cs \<Rightarrow> upperChar c # cs)"

definition optionSet :: "bool option \<Rightarrow> bool" where
  "optionSet b \<longleftrightarrow> b = Some True"

definition shouldApplyReadonlyProperty :: "GeneratorConfig \<Rightarrow> bool" where
  "shouldApplyReadonlyProperty config \<longleftrightarrow>
     readonlyValueObjects config = Some True \<and>
     (case phpVersion config of
        None \<Rightarrow> False
      | Some v \<Rightarrow> 81 \<le> versionTenths v \<and> versionTenths v < 82)"

definition setVisibility :: "bool \<Rightarrow> Visibility" where
  "setVisibility isPublic = (if isPublic then Public else Private)"

datatype DocType = DocVar | DocReturn | DocParam

text \<open>The comments that \<open>addCollectionDocstring\<close> adds to its target: none or one.\<close>

definition addCollectionDocstring :: "CMLProperty \<Rightarrow> DocType \<Rightarrow> GeneratorConfig \<Rightarrow> string list" where
  "addCollectionDocstring prop docType config =
     (if \<not> isCollection prop then []
      else
        let arrayDoc =
              (case docType of
                 DocParam \<Rightarrow> ''@param array<int, '' @ type prop @ ''> $'' @ name prop
               | DocReturn \<Rightarrow> ''@return array<int, '' @ type prop @ ''>''
               | DocVar \<Rightarrow> ''@var array<int, '' @ type prop @ ''>'');
            collectionOf = [CHR 0x5C] @ doctrineCollection @ ''<array-key, '' @ type prop @ ''>''
        in if framework config = Doctrine then
             (if isRelation prop \<and> optionSet (doctrineCollectionDocstrings config) then
                [case docType of
                   DocParam \<Rightarrow> ''@param '' @ collectionOf @ '' $'' @ name prop
                 | DocReturn \<Rightarrow> ''@return '' @ collectionOf
                 | DocVar \<Rightarrow> ''@var '' @ collectionOf]
              else if \<not> isRelation prop \<and> optionSet (arrayDocstrings config) then [arrayDoc]
              else [])
           else if optionSet (arrayDocstrings config) \<and> framework config = Plain then [arrayDoc]
           else [])"

text \<open>
  The cleaned label of an enumeration value, used for the case name and its value. The enum
  emitter computes its namespace by the same tests as \<open>buildNamespace\<close>, written out in place.
\<close>

definition cleanValue :: "string \<Rightarrow> string" where
  "cleanValue v = toUpperCase (map (\<lambda>c. if isWord c then c else CHR ''_'') v)"

definition buildEnum :: "CMLEnum \<Rightarrow> GeneratorConfig \<Rightarrow> string \<Rightarrow> string \<Rightarrow> string \<Rightarrow> PhpEnum" where
  "buildEnum enumDef config boundedContextName aggregateName nameOverride =
     (let ns = buildNamespace config boundedContextName aggregateName;
          enumName = (if nameOverride \<noteq> [] then nameOverride else name enumDef)
      in \<lparr>name = enumName, enumNamespace = ns, backingType = ''string'',
          cases = map (\<lambda>v. (cleanValue v, cleanValue v)) (enumValues enumDef)\<rparr>)"

definition generateEnum ::
  "Environment \<Rightarrow> CMLEnum \<Rightarrow> GeneratorConfig \<Rightarrow> string \<Rightarrow> string \<Rightarrow> string \<Rightarrow> string" where
  "generateEnum env enumDef config boundedContextName aggregateName nameOverride =
     printFile env None (PhpEnumFile (buildEnum enumDef config boundedContextName aggregateName nameOverride))"

text \<open>The value object emitter, in the order of the source: properties, constructor, accessors.\<close>

definition effectiveConstructorType :: "GeneratorConfig \<Rightarrow> ConstructorType" where
  "effectiveConstructorType config =
     (if optionSet (readonlyValueObjects config) then CtAll else constructorType config)"

definition propertiesForConstructor :: "GeneratorConfig \<Rightarrow> CMLValueObject \<Rightarrow> CMLProperty list" where
  "propertiesForConstructor config valueObject =
     (if effectiveConstructorType config \<noteq> CtNone then
        (if effectiveConstructorType config = CtRequired
         then filter (\<lambda>prop. \<not> nullable prop) (properties valueObject)
         else properties valueObject)
      else [])"

definition promotedProperties :: "GeneratorConfig \<Rightarrow> CMLValueObject \<Rightarrow> string set" where
  "promotedProperties config valueObject =
     (if constructorPropertyPromotion config \<and> effectiveConstructorType config \<noteq> CtNone
      then set (map name (propertiesForConstructor config valueObject))
      else {})"

definition valueObjectProperty :: "GeneratorConfig \<Rightarrow> CMLProperty \<Rightarrow> PhpProperty" where
  "valueObjectProperty config prop =
     \<lparr>name = name prop,
      propVisibility = setVisibility (publicProperties config),
      propType = mapTypeToPHP config prop,
      propNullable = nullable prop,
      propReadOnly = shouldApplyReadonlyProperty config,
      propComments = addCollectionDocstring prop DocVar config,
      propAttributes = []\<rparr>"

definition constructorParameter :: "GeneratorConfig \<Rightarrow> CMLProperty \<Rightarrow> PhpParameter" where
  "constructorParameter config prop =
     \<lparr>name = name prop,
      paramType = mapTypeToPHP config prop,
      paramNullable = nullable prop,
      paramPromoted = constructorPropertyPromotion config,
      paramVisibility =
        (if constructorPropertyPromotion config then Some (setVisibility (publicProperties config))
         else None),
      paramReadOnly = (constructorPropertyPromotion config \<and> shouldApplyReadonlyProperty config),
      paramComments = addCollectionDocstring prop DocVar config\<rparr>"

definition assignment :: "CMLProperty \<Rightarrow> string" where
  "assignment prop = ''$this->'' @ name prop @ '' = $'' @ name prop @ '';'' @ [CHR 0x0A]"

definition valueObjectConstructor :: "GeneratorConfig \<Rightarrow> CMLValueObject \<Rightarrow> PhpMethod list" where
  "valueObjectConstructor config valueObject =
     (if effectiveConstructorType config \<noteq> CtNone \<and> 0 < length (properties valueObject) then
        let constructorBody =
              (if constructorPropertyPromotion config then []
               else concat (map assignment (propertiesForConstructor config valueObject)))
        in [\<lparr>name = ''__construct'',
             parameters = map (constructorParameter config) (propertiesForConstructor config valueObject),
             returnType = None, returnNullable = False,
             body = (if constructorBody \<noteq> [] then Some constructorBody else None),
             methodComments = []\<rparr>]
      else [])"

definition getter :: "GeneratorConfig \<Rightarrow> CMLProperty \<Rightarrow> PhpMethod" where
  "getter config prop =
     \<lparr>name = ''get'' @ capitalize (name prop),
      parameters = [],
      returnType = Some (mapTypeToPHP config prop),
      returnNullable = nullable prop,
      body = Some (''return $this->'' @ name prop @ '';''),
      methodComments = addCollectionDocstring prop DocReturn config\<rparr>"

definition setter :: "GeneratorConfig \<Rightarrow> CMLProperty \<Rightarrow> PhpMethod" where
  "setter config prop =
     \<lparr>name = ''set'' @ capitalize (name prop),
      parameters =
        [\<lparr>name = name prop, paramType = mapTypeToPHP config prop, paramNullable = nullable prop,
          paramPromoted = False, paramVisibility = None, paramReadOnly = False,
          paramComments = []\<rparr>],
      returnType = Some ''self'',
      returnNullable = False,
      body = Some (''$this->'' @ name prop @ '' = $'' @ name prop @ '';'' @ [CHR 0x0A, CHR 0x0A]
                   @ ''return $this;''),
      methodComments = addCollectionDocstring prop DocParam config\<rparr>"

definition valueObjectAccessors :: "GeneratorConfig \<Rightarrow> CMLProperty \<Rightarrow> PhpMethod list" where
  "valueObjectAccessors config prop =
     (if addGetters config then [getter config prop] else []) @
     (if addSetters config \<and> \<not> optionSet (readonlyValueObjects config) then [setter config prop]
      else [])"

definition buildValueObject ::
  "CMLValueObject \<Rightarrow> GeneratorConfig \<Rightarrow> string \<Rightarrow> string \<Rightarrow> string \<Rightarrow> PhpClass" where
  "buildValueObject valueObject config boundedContextName aggregateName nameOverride =
     \<lparr>name = (if nameOverride \<noteq> [] then nameOverride else name valueObject),
      classNamespace = buildNamespace config boundedContextName aggregateName,
      classFinal = True,
      classReadOnly =
        (optionSet (readonlyValueObjects config) \<and>
         (case phpVersion config of None \<Rightarrow> False | Some v \<Rightarrow> 82 \<le> versionTenths v)),
      classExtends = None,
      classComments = [],
      classAttributes = [],
      classProperties =
        map (valueObjectProperty config)
          (filter (\<lambda>prop. name prop \<notin> promotedProperties config valueObject)
             (properties valueObject)),
      classMethods =
        valueObjectConstructor config valueObject @
        concat (map (valueObjectAccessors config) (properties valueObject))\<rparr>"

definition generateValueObject ::
  "Environment \<Rightarrow> CMLValueObject \<Rightarrow> GeneratorConfig \<Rightarrow> string \<Rightarrow> string \<Rightarrow> string \<Rightarrow> string" where
  "generateValueObject env valueObject config boundedContextName aggregateName nameOverride =
     printFile env None
       (PhpClassFile (buildValueObject valueObject config boundedContextName aggregateName nameOverride))"

text \<open>The entity emitter.\<close>

definition backslash :: string where
  "backslash = [CHR 0x5C]"

definition quote :: string where
  "quote = [CHR 0x27]"

definition toSnakeCase :: "string \<Rightarrow> string" where
  "toSnakeCase str =
     (let s = toLowerCase (concat (map (\<lambda>c. if isUpperAZ c then [CHR ''_'', c] else [c]) str))
      in if startsWith s ''_'' then drop 1 s else s)"

definition getInversePropertyName :: "string \<Rightarrow> string" where
  "getInversePropertyName entityName = toSnakeCase entityName"

definition mapDoctrineType :: "string \<Rightarrow> string" where
  "mapDoctrineType ty =
     (let lowerType = toLowerCase ty
      in if lowerType = ''string'' then ''string''
         else if lowerType = ''int'' \<or> lowerType = ''integer'' then ''integer''
         else if lowerType = ''bool'' \<or> lowerType = ''boolean'' then ''boolean''
         else if lowerType = ''float'' \<or> lowerType = ''double'' then ''float''
         else if lowerType = ''datetime'' then ''datetime''
         else if lowerType = ''date'' then ''date''
         else if lowerType = ''clob'' then ''text''
         else ''string'')"

definition ormMapping :: "string \<Rightarrow> string" where
  "ormMapping what = joinWith backslash [''Doctrine'', ''ORM'', ''Mapping'', what]"

definition eloquent :: "string list \<Rightarrow> string" where
  "eloquent parts = joinWith backslash ([''Illuminate'', ''Database'', ''Eloquent''] @ parts)"

definition boolText :: "bool \<Rightarrow> string" where
  "boolText b = (if b then ''true'' else ''false'')"

definition isLaravelRelation :: "GeneratorConfig \<Rightarrow> CMLProperty \<Rightarrow> bool" where
  "isLaravelRelation config prop \<longleftrightarrow> isRelation prop \<and> framework config = Laravel"

definition attributesEnabled :: "GeneratorConfig \<Rightarrow> bool" where
  "attributesEnabled config \<longleftrightarrow> doctrineAttributes config \<noteq> Some False"

definition propertiesToInclude :: "GeneratorConfig \<Rightarrow> CMLEntity \<Rightarrow> CMLProperty list" where
  "propertiesToInclude config entity =
     (let forConstructor =
            (if constructorType config \<noteq> CtNone
             then filter (\<lambda>prop. \<not> isLaravelRelation config prop) (properties entity)
             else [])
      in if constructorType config = CtRequired
         then filter (\<lambda>prop. \<not> nullable prop) forConstructor
         else forConstructor)"

definition entityPromotedProperties :: "GeneratorConfig \<Rightarrow> CMLEntity \<Rightarrow> string set" where
  "entityPromotedProperties config entity =
     (if constructorPropertyPromotion config \<and> constructorType config \<noteq> CtNone
      then set (map name (propertiesToInclude config entity))
      else {})"

definition entityProperty :: "GeneratorConfig \<Rightarrow> CMLEntity \<Rightarrow> CMLProperty \<Rightarrow> PhpProperty" where
  "entityProperty config entity prop =
     (let docs = addCollectionDocstring prop DocVar config;
          targetEntity = ''targetEntity: '' @ type prop @ ''::class'';
          nullableArg = ''nullable: '' @ boolText (nullable prop);
          phpProp = \<lparr>name = name prop,
                     propVisibility = setVisibility (publicProperties config),
                     propType = mapTypeToPHP config prop,
                     propNullable = nullable prop,
                     propReadOnly = False,
                     propComments = docs,
                     propAttributes = []\<rparr>
      in if framework config = Laravel then
           (if isRelation prop then phpProp
            else if name prop = ''id''
              then phpProp\<lparr>propAttributes := [(eloquent [''Casts'', ''Attribute''], [])]\<rparr>
            else phpProp)
         else if framework config = Doctrine then
           (if attributesEnabled config then
              (if isRelation prop then
                 (if isCollection prop then
                    phpProp\<lparr>propType := doctrineCollection,
                            propComments := docs @ docs,
                            propAttributes :=
                              [(ormMapping ''OneToMany'',
                                [targetEntity,
                                 ''mappedBy: '' @ quote @ getInversePropertyName (name entity) @ quote])]\<rparr>
                  else phpProp\<lparr>propAttributes := [(ormMapping ''ManyToOne'', [targetEntity])]\<rparr>)
               else if isCollection prop then
                 phpProp\<lparr>propAttributes :=
                           [(ormMapping ''Column'', [''type: '' @ quote @ ''json'' @ quote, nullableArg])]\<rparr>
               else
                 phpProp\<lparr>propAttributes :=
                           [(ormMapping ''Column'',
                             [''type: '' @ quote @ mapDoctrineType (type prop) @ quote, nullableArg])]\<rparr>)
            else if isCollection prop \<and> isRelation prop then
              phpProp\<lparr>propType := doctrineCollection, propComments := docs @ docs\<rparr>
            else phpProp)
         else phpProp)"

definition collectionInit :: "CMLProperty \<Rightarrow> string" where
  "collectionInit prop =
     ''$this->'' @ name prop @ '' = new '' @ backslash @
     joinWith backslash [''Doctrine'', ''Common'', ''Collections'', ''ArrayCollection''] @
     ''();'' @ [CHR 0x0A]"

definition arrayInit :: "CMLProperty \<Rightarrow> string" where
  "arrayInit prop = ''$this->'' @ name prop @ '' = [];'' @ [CHR 0x0A]"

definition entityConstructorParameter :: "GeneratorConfig \<Rightarrow> CMLProperty \<Rightarrow> PhpParameter" where
  "entityConstructorParameter config prop =
     \<lparr>name = name prop,
      paramType = mapTypeToPHP config prop,
      paramNullable = nullable prop,
      paramPromoted = constructorPropertyPromotion config,
      paramVisibility =
        (if constructorPropertyPromotion config then Some (setVisibility (publicProperties config))
         else None),
      paramReadOnly = False,
      paramComments = addCollectionDocstring prop DocVar config\<rparr>"

definition entityConstructor :: "GeneratorConfig \<Rightarrow> CMLEntity \<Rightarrow> PhpMethod list" where
  "entityConstructor config entity =
     (if constructorType config \<noteq> CtNone then
        let included = propertiesToInclude config entity;
            includedNames = set (map name included);
            inits =
              (if framework config = Doctrine then
                 concat (map (\<lambda>prop.
                    if isCollection prop \<and> isRelation prop then collectionInit prop
                    else if isCollection prop \<and> \<not> isRelation prop \<and> name prop \<notin> includedNames
                      then arrayInit prop
                    else []) (properties entity))
               else []);
            constructorBody =
              inits @ (if constructorPropertyPromotion config then []
                       else concat (map assignment included))
        in [\<lparr>name = ''__construct'',
             parameters = map (entityConstructorParameter config) included,
             returnType = None, returnNullable = False,
             body = (if constructorBody \<noteq> [] then Some constructorBody else None),
             methodComments = []\<rparr>]
      else if framework config = Doctrine then
        (if list_ex isCollection (properties entity) then
           [\<lparr>name = ''__construct'',
             parameters = [],
             returnType = None, returnNullable = False,
             body = Some (concat (map (\<lambda>prop.
                      if isCollection prop \<and> isRelation prop then collectionInit prop
                      else if isCollection prop \<and> \<not> isRelation prop then arrayInit prop
                      else []) (properties entity))),
             methodComments = []\<rparr>]
         else [])
      else [])"

definition entityAccessors :: "GeneratorConfig \<Rightarrow> CMLProperty \<Rightarrow> PhpMethod list" where
  "entityAccessors config prop =
     (if isLaravelRelation config prop then []
      else (if addGetters config then [getter config prop] else []) @
           (if addSetters config then [setter config prop] else []))"

definition relationMethod :: "CMLProperty \<Rightarrow> PhpMethod" where
  "relationMethod prop =
     \<lparr>name = name prop,
      parameters = [],
      returnType =
        Some (if isCollection prop then eloquent [''Relations'', ''HasMany'']
              else eloquent [''Relations'', ''BelongsTo'']),
      returnNullable = False,
      body =
        Some (if isCollection prop then ''return $this->hasMany('' @ type prop @ ''::class);''
              else ''return $this->belongsTo('' @ type prop @ ''::class);''),
      methodComments = []\<rparr>"

definition buildEntity ::
  "CMLEntity \<Rightarrow> GeneratorConfig \<Rightarrow> string \<Rightarrow> string \<Rightarrow> string \<Rightarrow> PhpClass" where
  "buildEntity entity config boundedContextName aggregateName nameOverride =
     \<lparr>name = (if nameOverride \<noteq> [] then nameOverride else name entity),
      classNamespace = buildNamespace config boundedContextName aggregateName,
      classFinal = False,
      classReadOnly = False,
      classExtends = (if framework config = Laravel then Some (eloquent [''Model'']) else None),
      classComments = (if framework config = Laravel then [''@property-read int $id''] else []),
      classAttributes =
        (if framework config = Doctrine \<and> attributesEnabled config
         then [(ormMapping ''Entity'', []),
               (ormMapping ''Table'', [''name: '' @ quote @ toSnakeCase (name entity) @ quote])]
         else []),
      classProperties =
        map (entityProperty config entity)
          (filter (\<lambda>prop. \<not> isLaravelRelation config prop
                          \<and> name prop \<notin> entityPromotedProperties config entity)
             (properties entity)),
      classMethods =
        entityConstructor config entity @
        concat (map (entityAccessors config) (properties entity)) @
        (if framework config = Laravel
         then map relationMethod (filter isRelation (properties entity))
         else [])\<rparr>"

definition entityPrinterOptions :: PrinterOptions where
  "entityPrinterOptions =
     \<lparr>wrapLength = 120, linesBetweenMethods = 1, linesBetweenProperties = 0,
      linesBetweenUseTypes = 1\<rparr>"

definition generateEntity ::
  "Environment \<Rightarrow> CMLEntity \<Rightarrow> GeneratorConfig \<Rightarrow> string \<Rightarrow> string \<Rightarrow> string \<Rightarrow> string" where
  "generateEntity env entity config boundedContextName aggregateName nameOverride =
     printFile env (Some entityPrinterOptions)
       (PhpClassFile (buildEntity entity config boundedContextName aggregateName nameOverride))"

subsection \<open>The pipeline\<close>

definition mappingFor :: "Environment \<Rightarrow> GeneratorConfig \<Rightarrow> string \<Rightarrow> TypeFolder \<Rightarrow> MappingResult" where
  "mappingFor env config originalName fileType =
     (case regexPatternMappings config of
        Some mappings \<Rightarrow> getSubfolderForFile env originalName fileType mappings
      | None \<Rightarrow> \<lparr>subfolder = [], nameReplace = None\<rparr>)"

definition groupFolder :: "GeneratorConfig \<Rightarrow> string \<Rightarrow> string" where
  "groupFolder config folder = (if optionSet (groupByType config) then folder else [])"

definition directoryOf :: "GeneratorConfig \<Rightarrow> string \<Rightarrow> string \<Rightarrow> string" where
  "directoryOf config boundedContextName aggregateName =
     getDirectoryPath boundedContextName aggregateName
       (case directoryStructure config of None \<Rightarrow> Flat | Some d \<Rightarrow> d)"

definition enumFile ::
  "Environment \<Rightarrow> GeneratorConfig \<Rightarrow> string \<Rightarrow> string \<Rightarrow> CMLEnum \<Rightarrow> GeneratedFile" where
  "enumFile env config bcName aggName enumDef =
     (let mappingResult = mappingFor env config (name enumDef) EnumFolder;
          processedName = applyNameReplace env (name enumDef) (nameReplace mappingResult);
          fname = processedName @ ''.php''
      in \<lparr>filename = fname,
          path = buildFilePath (directoryOf config bcName aggName) (groupFolder config ''Enum/'')
                   (subfolder mappingResult) fname,
          content = generateEnum env enumDef config bcName aggName processedName,
          kind = EnumFile\<rparr>)"

definition valueObjectFile ::
  "Environment \<Rightarrow> GeneratorConfig \<Rightarrow> string \<Rightarrow> string \<Rightarrow> CMLValueObject \<Rightarrow> GeneratedFile" where
  "valueObjectFile env config bcName aggName valueObject =
     (let mappingResult = mappingFor env config (name valueObject) ValueObjectFolder;
          processedName = applyNameReplace env (name valueObject) (nameReplace mappingResult);
          fname = processedName @ ''.php''
      in \<lparr>filename = fname,
          path = buildFilePath (directoryOf config bcName aggName)
                   (groupFolder config ''ValueObject/'') (subfolder mappingResult) fname,
          content = generateValueObject env valueObject config bcName aggName processedName,
          kind = ValueObjectFile\<rparr>)"

definition entityFile ::
  "Environment \<Rightarrow> GeneratorConfig \<Rightarrow> string \<Rightarrow> string \<Rightarrow> CMLEntity \<Rightarrow> GeneratedFile" where
  "entityFile env config bcName aggName entity =
     (let mappingResult = mappingFor env config (name entity) EntityFolder;
          processedName = applyNameReplace env (name entity) (nameReplace mappingResult);
          fname = processedName @ ''.php''
      in \<lparr>filename = fname,
          path = buildFilePath (directoryOf config bcName aggName) (groupFolder config ''Entity/'')
                   (subfolder mappingResult) fname,
          content = generateEntity env entity config bcName aggName processedName,
          kind = EntityFile\<rparr>)"

text \<open>The files of one aggregate: the three inner loops, in the order of the source.\<close>

definition aggregateFiles ::
  "Environment \<Rightarrow> GeneratorConfig \<Rightarrow> string \<Rightarrow> CMLAggregate \<Rightarrow> GeneratedFile list" where
  "aggregateFiles env config bcName aggregate =
     map (enumFile env config bcName (name aggregate)) (enums aggregate) @
     map (valueObjectFile env config bcName (name aggregate)) (valueObjects aggregate) @
     map (entityFile env config bcName (name aggregate)) (entities aggregate)"

definition generatePHP :: "Environment \<Rightarrow> CMLModel \<Rightarrow> GeneratorConfig \<Rightarrow> GeneratedFile list" where
  "generatePHP env model config =
     concat (map (\<lambda>boundedContext.
        concat (map (aggregateFiles env config (name boundedContext)) (aggregates boundedContext)))
       model)"

section \<open>Notions used in the statements\<close>

text \<open>The text of scenario 1 and an enumeration with the body of scenario 2.\<close>

definition unlines :: "string list \<Rightarrow> string" where
  "unlines ls = joinWith [CHR 0x0A] ls"

definition scenario1 :: string where
  "scenario1 = unlines
     [''BoundedContext Sales {'',
      ''  Aggregate Order {'',
      ''    Entity Order {'',
      ''      aggregateRoot'',
      ''      - Set<OrderLine> lines'',
      ''    }'',
      ''  }'',
      ''}'']"

definition scenario2 :: string where
  "scenario2 = unlines
     [''BoundedContext Sales {'',
      ''  Aggregate Order {'',
      ''    enum Status {'',
      ''      Active, Inactive, pending-review'',
      ''    }'',
      ''  }'',
      ''}'']"

text \<open>
  The normalised label in the words of the specification: the label upper-cased, with every
  character outside \<open>[A-Za-z0-9_]\<close> replaced by an underscore.
\<close>

definition normalisedLabel :: "string \<Rightarrow> string" where
  "normalisedLabel v = map (\<lambda>c. if isWord c then upperChar c else CHR ''_'') v"

text \<open>The number of enumerations, value objects and entities of a model.\<close>

definition aggregateUnits :: "CMLAggregate \<Rightarrow> nat" where
  "aggregateUnits a = length (enums a) + length (valueObjects a) + length (entities a)"

definition modelUnits :: "CMLModel \<Rightarrow> nat" where
  "modelUnits model = sum_list (map (\<lambda>bc. sum_list (map aggregateUnits (aggregates bc))) model)"

text \<open>
  An environment for the concrete instances. Its regular expressions are the patterns made of
  word characters only, which match where they occur as a substring; it rejects every other
  pattern, as the runtime rejects the pattern \<open>(\<close>.
\<close>

fun removeFirstOccurrence :: "string \<Rightarrow> string \<Rightarrow> string" where
  "removeFirstOccurrence p [] = []"
| "removeFirstOccurrence p (c # cs) =
     (if startsWith (c # cs) p then drop (length p) (c # cs) else c # removeFirstOccurrence p cs)"

definition sampleEnvironment :: Environment where
  "sampleEnvironment =
     \<lparr>printFile = (\<lambda>options file. case file of PhpEnumFile e \<Rightarrow> ''enum '' @ name e
                                             | PhpClassFile c \<Rightarrow> ''class '' @ name c),
      regexTest = (\<lambda>p s. if list_all isWord p then Some (includesStr s p) else None),
      regexRemoveFirst = (\<lambda>p s. if list_all isWord p then Some (removeFirstOccurrence p s) else None)\<rparr>"

definition sampleConfig :: GeneratorConfig where
  "sampleConfig =
     \<lparr>framework = Plain, publicProperties = False, addGetters = True, addSetters = True,
      namespace = None, constructorType = CtNone, constructorPropertyPromotion = False,
      doctrineCollectionDocstrings = None, doctrineAttributes = None, arrayDocstrings = None,
      directoryStructure = None, groupByType = None, phpVersion = None,
      readonlyValueObjects = None, regexPatternMappings = None\<rparr>"

text \<open>The lines that open a scope: the loop tests for them before anything else.\<close>

definition isDeclarationLine :: "string \<Rightarrow> bool" where
  "isDeclarationLine line \<longleftrightarrow>
     startsWith line ''BoundedContext '' \<or> startsWith line ''Aggregate '' \<or>
     startsWith line ''Entity '' \<or> startsWith line ''ValueObject '' \<or> startsWith line ''enum ''"

text \<open>A configuration that asks for read-only value objects and setters, and a value object.\<close>

definition readonlyConfig :: GeneratorConfig where
  "readonlyConfig = sampleConfig\<lparr>phpVersion := Some Php82, readonlyValueObjects := Some True\<rparr>"

definition money :: CMLValueObject where
  "money = \<lparr>name = ''Money'',
            properties =
              [\<lparr>name = ''amount'', type = ''int'', nullable = False, isRelation = False,
                isCollection = False, isEnum = False\<rparr>,
               \<lparr>name = ''currency'', type = ''String'', nullable = True, isRelation = False,
                isCollection = False, isEnum = False\<rparr>]\<rparr>"

text \<open>A model with one aggregate that has one unit of each kind.\<close>

definition orderAggregate :: CMLAggregate where
  "orderAggregate =
     \<lparr>name = ''Order'',
      entities = [\<lparr>name = ''Order'', properties = [], isAggregateRoot = True\<rparr>],
      valueObjects = [money],
      enums = [\<lparr>name = ''Status'', enumValues = [''Active'', ''Inactive'']\<rparr>]\<rparr>"

definition salesContext :: CMLBoundedContext where
  "salesContext = \<lparr>name = ''Sales'', aggregates = [orderAggregate]\<rparr>"

text \<open>A list of strings and a list of references to a sibling type, not relations.\<close>

definition stringList :: CMLProperty where
  "stringList = \<lparr>name = ''tags'', type = ''string'', nullable = False, isRelation = False,
                 isCollection = True, isEnum = False\<rparr>"

definition tagList :: CMLProperty where
  "tagList = \<lparr>name = ''tags'', type = ''Tag'', nullable = False, isRelation = False,
              isCollection = True, isEnum = False\<rparr>"


text \<open>An enumeration opened inside an open entity: the cursors, and a whole text.\<close>

definition nestedEnumState :: ParserState where
  "nestedEnumState = parseLines initialState [''Entity Order {'', ''enum Status {'']"

definition nestedEnumText :: string where
  "nestedEnumText = unlines
     [''BoundedContext Sales {'',
      ''  Aggregate Order {'',
      ''    Entity Order {'',
      ''      enum Status {'',
      ''        Active'',
      ''      }'',
      ''      String name'',
      ''    }'',
      ''  }'',
      ''}'']"

text \<open>
  The rule that \<open>getSubfolderForFile\<close> looks for, and the rule in the words of the
  specification: its pattern matches the name and its kind filter, if present, matches.
\<close>

definition eligible :: "Environment \<Rightarrow> string \<Rightarrow> TypeFolder \<Rightarrow> RegexPatternMapping \<Rightarrow> bool" where
  "eligible env fname fileType mapping \<longleftrightarrow>
     (typeFolder mapping = None \<or> typeFolder mapping = Some fileType) \<and>
     pattern mapping \<noteq> [] \<and> subfolder mapping \<noteq> [] \<and>
     regexTest env (pattern mapping) fname = Some True"

definition matchesAsStated :: "Environment \<Rightarrow> string \<Rightarrow> TypeFolder \<Rightarrow> RegexPatternMapping \<Rightarrow> bool" where
  "matchesAsStated env fname fileType mapping \<longleftrightarrow>
     regexTest env (pattern mapping) fname = Some True \<and>
     (typeFolder mapping = None \<or> typeFolder mapping = Some fileType)"

definition resultOf :: "RegexPatternMapping option \<Rightarrow> MappingResult" where
  "resultOf found =
     (case found of
        None \<Rightarrow> \<lparr>subfolder = [], nameReplace = None\<rparr>
      | Some mapping \<Rightarrow> \<lparr>subfolder = subfolder mapping, nameReplace = nameReplace mapping\<rparr>)"

text \<open>
  Rules for the concrete instances: one that only renames, one that only moves, and two with the
  malformed pattern \<open>(\<close>, as match pattern and as name-strip pattern.
\<close>

definition renameOnly :: RegexPatternMapping where
  "renameOnly = \<lparr>subfolder = [], nameReplace = Some ''Line'', pattern = ''Order'', typeFolder = None\<rparr>"

definition toSales :: RegexPatternMapping where
  "toSales = \<lparr>subfolder = ''Sales'', nameReplace = None, pattern = ''Order'', typeFolder = None\<rparr>"

definition malformed :: RegexPatternMapping where
  "malformed = \<lparr>subfolder = ''Broken'', nameReplace = Some ''('', pattern = ''('', typeFolder = None\<rparr>"

definition badRename :: RegexPatternMapping where
  "badRename = \<lparr>subfolder = ''Sales'', nameReplace = Some ''('', pattern = ''Order'', typeFolder = None\<rparr>"

text \<open>
  The addresses that the returned model is read from: the aggregates in the arrays of the
  bounded contexts, and the entities, value objects and enumerations in the arrays of those
  aggregates.
\<close>

definition reachableAggregates :: "ParserState \<Rightarrow> nat list" where
  "reachableAggregates s =
     concat (map (\<lambda>c. aggregateRefs (contextStore s ! c)) (boundedContexts s))"

definition reachableEntities :: "ParserState \<Rightarrow> nat list" where
  "reachableEntities s =
     concat (map (\<lambda>g. entityRefs (aggregateStore s ! g)) (reachableAggregates s))"

definition reachableValueObjects :: "ParserState \<Rightarrow> nat list" where
  "reachableValueObjects s =
     concat (map (\<lambda>g. valueObjectRefs (aggregateStore s ! g)) (reachableAggregates s))"

definition reachableEnums :: "ParserState \<Rightarrow> nat list" where
  "reachableEnums s =
     concat (map (\<lambda>g. enumRefs (aggregateStore s ! g)) (reachableAggregates s))"

text \<open>
  The links of a parser state are in order when every reference in an array is the address of an
  allocated object, no entity, value object or enumeration is in the arrays of two aggregates,
  and the context and aggregate cursors are addresses of allocated objects.
\<close>

definition refsBelow :: "nat \<Rightarrow> nat list list \<Rightarrow> bool" where
  "refsBelow n rss \<longleftrightarrow> (\<forall>i < length rss. \<forall>r \<in> set (rss ! i). r < n)"

definition refsDisjoint :: "nat list list \<Rightarrow> bool" where
  "refsDisjoint rss \<longleftrightarrow>
     (\<forall>i < length rss. \<forall>j < length rss. i \<noteq> j \<longrightarrow> set (rss ! i) \<inter> set (rss ! j) = {})"

definition wellLinked :: "ParserState \<Rightarrow> bool" where
  "wellLinked s \<longleftrightarrow>
     refsBelow (length (aggregateStore s)) (map aggregateRefs (contextStore s)) \<and>
     refsBelow (length (entityStore s)) (map entityRefs (aggregateStore s)) \<and>
     refsBelow (length (valueObjectStore s)) (map valueObjectRefs (aggregateStore s)) \<and>
     refsBelow (length (enumStore s)) (map enumRefs (aggregateStore s)) \<and>
     refsDisjoint (map entityRefs (aggregateStore s)) \<and>
     refsDisjoint (map valueObjectRefs (aggregateStore s)) \<and>
     refsDisjoint (map enumRefs (aggregateStore s)) \<and>
     (\<forall>c \<in> set (boundedContexts s). c < length (contextStore s)) \<and>
     (\<forall>c. currentBoundedContext s = Some c \<longrightarrow> c < length (contextStore s)) \<and>
     (\<forall>g. currentAggregate s = Some g \<longrightarrow> g < length (aggregateStore s))"

text \<open>An address that occurs in none of the arrays.\<close>

definition unlinked :: "nat \<Rightarrow> nat list list \<Rightarrow> bool" where
  "unlinked a rss \<longleftrightarrow> (\<forall>i < length rss. a \<notin> set (rss ! i))"

text \<open>Two states with the same links and as many objects of each kind.\<close>

definition sameLinks :: "ParserState \<Rightarrow> ParserState \<Rightarrow> bool" where
  "sameLinks s s' \<longleftrightarrow>
     contextStore s' = contextStore s \<and> aggregateStore s' = aggregateStore s \<and>
     length (entityStore s') = length (entityStore s) \<and>
     length (valueObjectStore s') = length (valueObjectStore s) \<and>
     length (enumStore s') = length (enumStore s) \<and>
     boundedContexts s' = boundedContexts s \<and>
     currentBoundedContext s' = currentBoundedContext s \<and>
     currentAggregate s' = currentAggregate s"

text \<open>An allocated object that no array refers to.\<close>

definition aggregateOrphan :: "nat \<Rightarrow> ParserState \<Rightarrow> bool" where
  "aggregateOrphan g s \<longleftrightarrow>
     g < length (aggregateStore s) \<and> unlinked g (map aggregateRefs (contextStore s))"

definition entityOrphan :: "nat \<Rightarrow> ParserState \<Rightarrow> bool" where
  "entityOrphan a s \<longleftrightarrow>
     a < length (entityStore s) \<and> unlinked a (map entityRefs (aggregateStore s))"

definition valueObjectOrphan :: "nat \<Rightarrow> ParserState \<Rightarrow> bool" where
  "valueObjectOrphan a s \<longleftrightarrow>
     a < length (valueObjectStore s) \<and> unlinked a (map valueObjectRefs (aggregateStore s))"

definition enumOrphan :: "nat \<Rightarrow> ParserState \<Rightarrow> bool" where
  "enumOrphan a s \<longleftrightarrow>
     a < length (enumStore s) \<and> unlinked a (map enumRefs (aggregateStore s))"

text \<open>
  A text whose first aggregate comes before any bounded context, and a text whose first entity
  comes before any aggregate.
\<close>

definition orphanLines :: "string list" where
  "orphanLines =
     [''Entity Item {'', ''String name'', ''}'', ''}'',
      ''BoundedContext Sales {'', ''Aggregate Order {'', ''Entity Order {'', ''}'', ''}'', ''}'']"

definition orphanText :: string where
  "orphanText = unlines (''Aggregate Lost {'' # orphanLines)"

definition strayLines :: "string list" where
  "strayLines =
     [''String name'', ''}'', ''BoundedContext Sales {'', ''Aggregate Order {'', ''}'', ''}'']"

definition strayText :: string where
  "strayText = unlines (''Entity Stray {'' # strayLines)"

section \<open>Scenario 1\<close>

text \<open>
  C1. Parsing the text of scenario 1 gives exactly one bounded context, \<open>Sales\<close>, with one
  aggregate, \<open>Order\<close>, with one entity, \<open>Order\<close>, which is the aggregate root and has the one
  property \<open>lines\<close> of type \<open>OrderLine\<close>, a relation and a collection (not nullable, no
  enumeration marker); the aggregate has no value objects and no enumerations.
\<close>

theorem scenario1_parse:
  "parseCML scenario1 =
     [\<lparr>name = ''Sales'',
       aggregates =
         [\<lparr>name = ''Order'',
           entities =
             [\<lparr>name = ''Order'',
               properties =
                 [\<lparr>name = ''lines'', type = ''OrderLine'', nullable = False,
                   isRelation = True, isCollection = True, isEnum = False\<rparr>],
               isAggregateRoot = True\<rparr>],
           valueObjects = [],
           enums = []\<rparr>]\<rparr>]"
  by code_simp

section \<open>The file list\<close>

lemma length_aggregateFiles:
  "length (aggregateFiles env config bcName a) = aggregateUnits a"
  by (simp add: aggregateFiles_def aggregateUnits_def)

lemma length_contextFiles:
  "length (concat (map (aggregateFiles env config bcName) as)) = sum_list (map aggregateUnits as)"
  by (induction as) (simp_all add: length_aggregateFiles)

lemma length_generatePHP:
  "length (generatePHP env model config) = modelUnits model"
  unfolding generatePHP_def modelUnits_def
  by (induction model) (simp_all add: length_contextFiles)

text \<open>
  C5. The list that \<open>generatePHP\<close> returns has as many files as the model has enumerations,
  value objects and entities, over all aggregates of all bounded contexts.
\<close>

theorem generatePHP_count:
  "length (generatePHP env model config) = modelUnits model"
  by (rule length_generatePHP)

section \<open>The file list, continued\<close>

lemma kinds_aggregateFiles:
  "map kind (aggregateFiles env config bcName a) =
     replicate (length (enums a)) EnumFile @
     replicate (length (valueObjects a)) ValueObjectFile @
     replicate (length (entities a)) EntityFile"
  by (simp add: aggregateFiles_def enumFile_def valueObjectFile_def entityFile_def Let_def
        map_replicate_const comp_def)

lemma generatePHP_portion:
  assumes "aggregates bc = before @ a # after"
  shows "generatePHP env (pre @ bc # post) config =
           (generatePHP env pre config @ concat (map (aggregateFiles env config (name bc)) before)) @
           aggregateFiles env config (name bc) a @
           (concat (map (aggregateFiles env config (name bc)) after) @ generatePHP env post config)"
  using assms by (simp add: generatePHP_def)

lemma replicate3_order:
  assumes "ks = replicate a (x::FileKind) @ replicate b y @ replicate c z"
    and "i < length ks" and "j < length ks"
  shows "(ks ! i = x \<and> ks ! j \<noteq> x \<and> x \<noteq> y \<and> x \<noteq> z \<longrightarrow> i < j)
       \<and> (ks ! i = y \<and> ks ! j = z \<and> x \<noteq> y \<and> x \<noteq> z \<and> y \<noteq> z \<longrightarrow> i < j)"
  using assms by (auto simp: nth_append split: if_splits)

text \<open>
  C4. The files of one aggregate are a contiguous part of the list that \<open>generatePHP\<close>
  returns, and inside that part every enumeration file comes before every value object file and
  every entity file, and every value object file comes before every entity file.
\<close>

theorem aggregate_files_order:
  assumes "aggregates bc = before @ a # after"
    and "fs = aggregateFiles env config (name bc) a"
    and "i < length fs" and "j < length fs"
  shows "generatePHP env (pre @ bc # post) config =
           (generatePHP env pre config @ concat (map (aggregateFiles env config (name bc)) before)) @
           fs @
           (concat (map (aggregateFiles env config (name bc)) after) @ generatePHP env post config)
       \<and> (kind (fs ! i) = EnumFile \<and> kind (fs ! j) \<noteq> EnumFile \<longrightarrow> i < j)
       \<and> (kind (fs ! i) = ValueObjectFile \<and> kind (fs ! j) = EntityFile \<longrightarrow> i < j)"
proof -
  have ks: "map kind fs =
     replicate (length (enums a)) EnumFile @
     replicate (length (valueObjects a)) ValueObjectFile @
     replicate (length (entities a)) EntityFile"
    unfolding assms(2) by (rule kinds_aggregateFiles)
  have "i < length (map kind fs)" "j < length (map kind fs)"
    using assms(3,4) by simp_all
  from replicate3_order [OF ks this]
  have "(kind (fs ! i) = EnumFile \<and> kind (fs ! j) \<noteq> EnumFile \<longrightarrow> i < j)
      \<and> (kind (fs ! i) = ValueObjectFile \<and> kind (fs ! j) = EntityFile \<longrightarrow> i < j)"
    using assms(3,4) by simp
  moreover note generatePHP_portion [OF assms(1), of env pre post config]
  ultimately show ?thesis
    unfolding assms(2) by simp
qed

section \<open>Enumerations\<close>

lemma upperChar_underscore: "upperChar (CHR ''_'') = CHR ''_''"
  by (simp add: upperChar_def isLowerAZ_def)

lemma cleanValue_normalised: "cleanValue v = normalisedLabel v"
  by (simp add: cleanValue_def normalisedLabel_def toUpperCase_def upperChar_underscore)

text \<open>
  C3. For every enumeration, the emitted cases are, in order, one per value label, and the
  identifier of a case and its backing string are both the normalised label: the label
  upper-cased with every character outside \<open>[A-Za-z0-9_]\<close> replaced by an underscore. The
  body \<open>Active, Inactive, pending-review\<close> parses to these three labels, and they give the
  cases \<open>ACTIVE\<close>, \<open>INACTIVE\<close> and \<open>PENDING_REVIEW\<close> with the same backing strings.
\<close>

theorem enum_cases_normalised:
  "cases (buildEnum enumDef config bcName aggName nameOverride) =
     map (\<lambda>v. (normalisedLabel v, normalisedLabel v)) (enumValues enumDef)
   \<and> map enumValues (concat (map enums (concat (map aggregates (parseCML scenario2))))) =
       [[''Active'', ''Inactive'', ''pending-review'']]
   \<and> map cases (map (\<lambda>e. buildEnum e sampleConfig ''Sales'' ''Order'' (name e))
         (concat (map enums (concat (map aggregates (parseCML scenario2)))))) =
       [[(''ACTIVE'', ''ACTIVE''), (''INACTIVE'', ''INACTIVE''),
         (''PENDING_REVIEW'', ''PENDING_REVIEW'')]]"
proof (intro conjI)
  show "cases (buildEnum enumDef config bcName aggName nameOverride) =
     map (\<lambda>v. (normalisedLabel v, normalisedLabel v)) (enumValues enumDef)"
    by (simp add: buildEnum_def Let_def cleanValue_normalised)
next
  show "map enumValues (concat (map enums (concat (map aggregates (parseCML scenario2))))) =
       [[''Active'', ''Inactive'', ''pending-review'']]"
    by code_simp
next
  show "map cases (map (\<lambda>e. buildEnum e sampleConfig ''Sales'' ''Order'' (name e))
         (concat (map enums (concat (map aggregates (parseCML scenario2)))))) =
       [[(''ACTIVE'', ''ACTIVE''), (''INACTIVE'', ''INACTIVE''),
         (''PENDING_REVIEW'', ''PENDING_REVIEW'')]]"
    by code_simp
qed

section \<open>Read-only value objects\<close>

lemma accessor_names:
  assumes "optionSet (readonlyValueObjects config)"
    and "m \<in> set (valueObjectAccessors config prop)"
  shows "m = getter config prop"
  using assms by (auto simp: valueObjectAccessors_def split: if_splits)

lemma getter_not_setter: "\<not> startsWith (name (getter config prop)) ''set''"
  by (simp add: getter_def startsWith_def)

lemma constructor_all:
  assumes "optionSet (readonlyValueObjects config)" and "properties vo \<noteq> []"
  shows "valueObjectConstructor config vo =
     [\<lparr>name = ''__construct'',
       parameters = map (constructorParameter config) (properties vo),
       returnType = None, returnNullable = False,
       body = (if constructorPropertyPromotion config then None
               else Some (concat (map assignment (properties vo)))),
       methodComments = []\<rparr>]"
proof -
  have "concat (map assignment (properties vo)) \<noteq> []"
    using assms(2) by (cases "properties vo") (simp_all add: assignment_def)
  then show ?thesis
    using assms
    by (simp add: valueObjectConstructor_def propertiesForConstructor_def
          effectiveConstructorType_def Let_def)
qed

lemma constructor_name:
  "m \<in> set (valueObjectConstructor config vo) \<Longrightarrow> name m = ''__construct''"
  by (auto simp: valueObjectConstructor_def Let_def split: if_splits)

text \<open>
  C6. When read-only value objects are requested, whatever the version and the setter option,
  the effective constructor policy is \<open>all\<close>, every method of the emitted class is the
  constructor or the getter of a declared property, no method is a setter, and, if the value
  object declares properties, the constructor takes one parameter per declared property, in
  order.
\<close>

theorem readonly_value_object:
  assumes "readonlyValueObjects config = Some True"
    and "cls = buildValueObject vo config bcName aggName nameOverride"
  shows "effectiveConstructorType config = CtAll
       \<and> (\<forall>m \<in> set (classMethods cls).
            (name m = ''__construct'' \<or> (\<exists>p \<in> set (properties vo). m = getter config p))
            \<and> \<not> startsWith (name m) ''set'')
       \<and> (\<forall>p \<in> set (properties vo). setter config p \<notin> set (classMethods cls))
       \<and> (properties vo \<noteq> [] \<longrightarrow>
            (\<exists>ctor \<in> set (classMethods cls). name ctor = ''__construct''
               \<and> parameters ctor = map (constructorParameter config) (properties vo)
               \<and> map name (parameters ctor) = map name (properties vo)))"
proof -
  have ro: "optionSet (readonlyValueObjects config)"
    using assms(1) by (simp add: optionSet_def)
  have methods: "classMethods cls =
      valueObjectConstructor config vo @ concat (map (valueObjectAccessors config) (properties vo))"
    by (simp add: assms(2) buildValueObject_def)
  have eff: "effectiveConstructorType config = CtAll"
    using ro by (simp add: effectiveConstructorType_def)
  have each: "(name m = ''__construct'' \<or> (\<exists>p \<in> set (properties vo). m = getter config p))
            \<and> \<not> startsWith (name m) ''set''" if "m \<in> set (classMethods cls)" for m
  proof -
    from that consider "m \<in> set (valueObjectConstructor config vo)"
      | p where "p \<in> set (properties vo)" "m \<in> set (valueObjectAccessors config p)"
      unfolding methods by auto
    then show ?thesis
    proof cases
      case 1
      then have "name m = ''__construct''" by (rule constructor_name)
      then show ?thesis by (simp add: startsWith_def)
    next
      case 2
      then have "m = getter config p" using accessor_names [OF ro] by blast
      with 2 show ?thesis using getter_not_setter by blast
    qed
  qed
  have nosetter: "setter config p \<notin> set (classMethods cls)" for p
  proof
    assume "setter config p \<in> set (classMethods cls)"
    from each [OF this] show False by (simp add: setter_def startsWith_def)
  qed
  have ctor: "\<exists>ctor \<in> set (classMethods cls). name ctor = ''__construct''
               \<and> parameters ctor = map (constructorParameter config) (properties vo)
               \<and> map name (parameters ctor) = map name (properties vo)"
    if "properties vo \<noteq> []"
    unfolding methods constructor_all [OF ro that]
    by (simp add: constructorParameter_def comp_def)
  show ?thesis using eff each nosetter ctor by blast
qed

theorem readonly_value_object_witness:
  "readonlyValueObjects readonlyConfig = Some True
   \<and> addSetters readonlyConfig
   \<and> effectiveConstructorType readonlyConfig = CtAll
   \<and> map name (classMethods (buildValueObject money readonlyConfig ''Sales'' ''Order'' ''Money'')) =
       [''__construct'', ''getAmount'', ''getCurrency'']
   \<and> list_all (\<lambda>m. \<not> startsWith (name m) ''set'')
         (classMethods (buildValueObject money readonlyConfig ''Sales'' ''Order'' ''Money''))
   \<and> map name (parameters (hd (classMethods
         (buildValueObject money readonlyConfig ''Sales'' ''Order'' ''Money'')))) =
       [''amount'', ''currency'']"
proof -
  have h: "readonlyValueObjects readonlyConfig = Some True"
    by (simp add: readonlyConfig_def)
  have s: "addSetters readonlyConfig"
    by (simp add: readonlyConfig_def sampleConfig_def)
  have ms: "map name (classMethods (buildValueObject money readonlyConfig ''Sales'' ''Order'' ''Money'')) =
       [''__construct'', ''getAmount'', ''getCurrency'']"
    by code_simp
  have ps: "map name (parameters (hd (classMethods
         (buildValueObject money readonlyConfig ''Sales'' ''Order'' ''Money'')))) =
       [''amount'', ''currency'']"
    by code_simp
  from readonly_value_object [OF h refl, of money "''Sales''" "''Order''" "''Money''"] h s ms ps
  show ?thesis by (simp add: list_all_iff)
qed

section \<open>The file list: a concrete instance\<close>

theorem aggregate_files_order_witness:
  "aggregates salesContext = [] @ orderAggregate # []
   \<and> map kind (aggregateFiles sampleEnvironment sampleConfig (name salesContext) orderAggregate) =
       [EnumFile, ValueObjectFile, EntityFile]
   \<and> kind (aggregateFiles sampleEnvironment sampleConfig (name salesContext) orderAggregate ! 1) =
       ValueObjectFile
   \<and> kind (aggregateFiles sampleEnvironment sampleConfig (name salesContext) orderAggregate ! 2) =
       EntityFile
   \<and> generatePHP sampleEnvironment ([] @ salesContext # []) sampleConfig =
       aggregateFiles sampleEnvironment sampleConfig (name salesContext) orderAggregate"
proof -
  let ?fs = "aggregateFiles sampleEnvironment sampleConfig (name salesContext) orderAggregate"
  have a: "aggregates salesContext = [] @ orderAggregate # []"
    by (simp add: salesContext_def)
  have ks: "map kind ?fs = [EnumFile, ValueObjectFile, EntityFile]"
    by code_simp
  have k1: "kind (?fs ! 1) = ValueObjectFile" and k2: "kind (?fs ! 2) = EntityFile"
    by code_simp+
  have len: "length ?fs = 3"
    using ks by (metis length_map length_Cons list.size(3) numeral_3_eq_3)
  have i: "1 < length ?fs" and j: "2 < length ?fs"
    using len by simp_all
  from aggregate_files_order [OF a refl i j, of "[]" "[]"] ks k1 k2
  show ?thesis using a by (simp add: generatePHP_def)
qed

section \<open>Collections in the type mapping\<close>

text \<open>
  In the mapping that decides collections first, the type of a collection with a non-blank
  element type does not depend on the element type.
\<close>

lemma mapTypeToPHP_collection:
  assumes "isCollection prop" and "trim (type prop) \<noteq> []"
  shows "mapTypeToPHP config prop =
           (if isRelation prop \<and> framework config = Doctrine then doctrineCollection
            else if isRelation prop \<and> framework config = Laravel then eloquentCollection
            else ''array'')"
  using assms by (auto simp: mapTypeToPHP_def trim_def)

text \<open>
  C7. In the mapping that decides the primitive names first (lines 1847 to 1878), a collection
  whose element type is the primitive \<open>string\<close> is mapped to \<open>string\<close>, not to a
  collection type, while a collection of a sibling type is mapped to the framework's collection;
  the mapping of lines 1199 to 1230 gives \<open>array\<close> for both.
\<close>

theorem primitivesFirst_collection_of_primitive:
  "isCollection stringList \<and> isCollection tagList
   \<and> mapTypeToPHP_primitivesFirst (sampleConfig\<lparr>framework := Doctrine\<rparr>) stringList = ''string''
   \<and> mapTypeToPHP_primitivesFirst (sampleConfig\<lparr>framework := Doctrine\<rparr>) tagList = doctrineCollection
   \<and> mapTypeToPHP (sampleConfig\<lparr>framework := Doctrine\<rparr>) stringList = ''array''
   \<and> mapTypeToPHP (sampleConfig\<lparr>framework := Doctrine\<rparr>) tagList = ''array''"
  by code_simp

section \<open>The nullable marker\<close>

subsection \<open>What the replacement deletes\<close>













subsection \<open>Lines without other markers\<close>













subsection \<open>The marker anywhere in the line\<close>








section \<open>Closing lines\<close>

text \<open>
  With an enumeration cursor and an entity cursor both open, one closing line resets both: a
  property line that follows is not added to the entity.
\<close>

theorem closing_line_counterexample:
  "currentEnum nestedEnumState \<noteq> None \<and> currentEntity nestedEnumState \<noteq> None
   \<and> isClosingLine ''}''
   \<and> currentEnum (parseLine nestedEnumState ''}'') = None
   \<and> currentEntity (parseLine nestedEnumState ''}'') = None
   \<and> parseCML nestedEnumText =
       [\<lparr>name = ''Sales'',
         aggregates =
           [\<lparr>name = ''Order'',
             entities = [\<lparr>name = ''Order'', properties = [], isAggregateRoot = False\<rparr>],
             valueObjects = [],
             enums = [\<lparr>name = ''Status'', enumValues = [''Active'']\<rparr>]\<rparr>]\<rparr>]"
  by code_simp

lemma closeScopes_all:
  "closeScopes s = s\<lparr>currentEnum := None, currentValueObject := None, currentEntity := None\<rparr>"
  by (simp add: closeScopes_def Let_def)

text \<open>
  C2, amended. A line that is \<open>}\<close> or ends with \<open>}\<close>, and is not a declaration line, resets
  the enumeration, value object and entity cursors together, whichever of them are open, and
  changes nothing else.
\<close>

theorem closing_line_closes_all:
  assumes "isClosingLine line" and "\<not> isDeclarationLine line"
  shows "parseLine s line =
           s\<lparr>currentEnum := None, currentValueObject := None, currentEntity := None\<rparr>"
  using assms by (simp add: parseLine_def isDeclarationLine_def closeScopes_all)

theorem closing_line_closes_all_witness:
  "isClosingLine ''}'' \<and> \<not> isDeclarationLine ''}''
   \<and> parseLine nestedEnumState ''}'' =
       nestedEnumState\<lparr>currentEnum := None, currentValueObject := None, currentEntity := None\<rparr>
   \<and> currentEnum nestedEnumState = Some 0 \<and> currentEntity nestedEnumState = Some 0"
proof -
  have c: "isClosingLine ''}''" by code_simp
  have d: "\<not> isDeclarationLine ''}''" by code_simp
  have e: "currentEnum nestedEnumState = Some 0 \<and> currentEntity nestedEnumState = Some 0"
    by code_simp
  from closing_line_closes_all [OF c d, of nestedEnumState] c d e
  show ?thesis by simp
qed

section \<open>Pattern rules\<close>

text \<open>
  The first rule whose pattern matches and whose kind filter is absent is passed over when its
  subfolder is empty.
\<close>

theorem first_rule_counterexample:
  "matchesAsStated sampleEnvironment ''OrderLine'' EntityFolder renameOnly
   \<and> find (matchesAsStated sampleEnvironment ''OrderLine'' EntityFolder) [renameOnly, toSales] = Some renameOnly
   \<and> getSubfolderForFile sampleEnvironment ''OrderLine'' EntityFolder [renameOnly, toSales] =
       \<lparr>subfolder = ''Sales'', nameReplace = None\<rparr>
   \<and> getSubfolderForFile sampleEnvironment ''OrderLine'' EntityFolder [renameOnly, toSales] \<noteq>
       resultOf (find (matchesAsStated sampleEnvironment ''OrderLine'' EntityFolder) [renameOnly, toSales])"
  by code_simp

lemma getSubfolderForFile_find:
  "getSubfolderForFile env fname fileType mappings =
     resultOf (find (eligible env fname fileType) mappings)"
proof (induction mappings)
  case Nil
  show ?case by (simp add: resultOf_def)
next
  case (Cons m ms)
  show ?case
  proof (cases "eligible env fname fileType m")
    case True
    then show ?thesis by (auto simp: eligible_def resultOf_def)
  next
    case False
    then have "getSubfolderForFile env fname fileType (m # ms) =
                 getSubfolderForFile env fname fileType ms"
      by (auto simp: eligible_def split: option.splits bool.splits)
    with False Cons.IH show ?thesis by simp
  qed
qed

lemma applyNameReplace_malformed:
  "regexRemoveFirst env p fname = None \<Longrightarrow> applyNameReplace env fname (Some p) = fname"
  by (simp add: applyNameReplace_def)

text \<open>
  C8, amended. Path resolution selects the first rule whose kind filter is absent or equal to
  the unit's kind, whose pattern and subfolder are both non-empty, and whose pattern compiles and
  matches the unit's original name. A rule whose pattern is malformed is passed over, a malformed
  name-strip pattern leaves the name unchanged, and the pipeline returns one file per unit
  whatever the rules are.
\<close>

theorem rule_selection:
  "getSubfolderForFile env fname fileType mappings =
     resultOf (find (eligible env fname fileType) mappings)
   \<and> (regexTest env (pattern mapping) fname = None \<longrightarrow>
        getSubfolderForFile env fname fileType (mapping # mappings) =
          getSubfolderForFile env fname fileType mappings)
   \<and> (regexRemoveFirst env p fname = None \<longrightarrow> applyNameReplace env fname (Some p) = fname)
   \<and> length (generatePHP env model config) = modelUnits model"
proof -
  have "getSubfolderForFile env fname fileType (mapping # mappings) =
          getSubfolderForFile env fname fileType mappings"
    if "regexTest env (pattern mapping) fname = None"
    using that by simp
  then show ?thesis
    using getSubfolderForFile_find applyNameReplace_malformed length_generatePHP by blast
qed

theorem rule_selection_witness:
  "regexTest sampleEnvironment (pattern malformed) ''Order'' = None
   \<and> getSubfolderForFile sampleEnvironment ''Order'' EntityFolder [malformed, badRename] =
       \<lparr>subfolder = ''Sales'', nameReplace = Some ''(''\<rparr>
   \<and> regexRemoveFirst sampleEnvironment ''('' ''Order'' = None
   \<and> applyNameReplace sampleEnvironment ''Order'' (Some ''('') = ''Order''
   \<and> length (generatePHP sampleEnvironment [salesContext]
         (sampleConfig\<lparr>regexPatternMappings := Some [malformed, badRename]\<rparr>)) = 3"
proof -
  have m: "regexTest sampleEnvironment (pattern malformed) ''Order'' = None"
    by code_simp
  have r: "regexRemoveFirst sampleEnvironment ''('' ''Order'' = None"
    by code_simp
  have f: "resultOf (find (eligible sampleEnvironment ''Order'' EntityFolder) [badRename]) =
       \<lparr>subfolder = ''Sales'', nameReplace = Some ''(''\<rparr>"
    by code_simp
  have u: "modelUnits [salesContext] = 3"
    by code_simp
  from rule_selection [of sampleEnvironment "''Order''" EntityFolder "[badRename]" malformed
      "''(''" "[salesContext]" "sampleConfig\<lparr>regexPatternMappings := Some [malformed, badRename]\<rparr>"]
    m r f u
  show ?thesis by simp
qed

section \<open>Units declared outside a scope\<close>

subsection \<open>Arrays of references\<close>

lemma nth_update_cases:
  "(xs[i := x]) ! j = (if i = j \<and> i < length xs then x else xs ! j)"
  by (cases "i < length xs") (simp_all add: nth_list_update list_update_beyond)

lemma refsBelow_mono: "refsBelow n rss \<Longrightarrow> n \<le> m \<Longrightarrow> refsBelow m rss"
  by (fastforce simp: refsBelow_def)

lemma refsBelow_new_cell: "refsBelow n (rss @ [[]]) = refsBelow n rss"
  by (auto simp: refsBelow_def nth_append less_Suc_eq)

lemma refsBelow_push:
  "refsBelow n rss \<Longrightarrow> refsBelow (Suc n) (rss[i := rss ! i @ [n]])"
  by (auto simp: refsBelow_def nth_update_cases less_Suc_eq split: if_splits)

lemma refsDisjoint_new_cell: "refsDisjoint rss \<Longrightarrow> refsDisjoint (rss @ [[]])"
  by (auto simp: refsDisjoint_def nth_append less_Suc_eq)

lemma refsDisjoint_push:
  "refsBelow n rss \<Longrightarrow> refsDisjoint rss \<Longrightarrow> refsDisjoint (rss[i := rss ! i @ [n]])"
proof (cases "i < length rss")
  case False
  assume "refsDisjoint rss"
  with False show ?thesis by (simp add: list_update_beyond)
next
  case True
  assume b: "refsBelow n rss" and d: "refsDisjoint rss"
  have fresh: "n \<notin> set (rss ! j)" if "j < length rss" for j
    using b that by (auto simp: refsBelow_def)
  show ?thesis
    unfolding refsDisjoint_def
  proof (intro allI impI)
    fix j k
    assume j: "j < length (rss[i := rss ! i @ [n]])"
      and k: "k < length (rss[i := rss ! i @ [n]])" and jk: "j \<noteq> k"
    then have jl: "j < length rss" and kl: "k < length rss" by simp_all
    have dj: "set (rss ! j) \<inter> set (rss ! k) = {}"
      using d jl kl jk by (simp add: refsDisjoint_def)
    show "set (rss[i := rss ! i @ [n]] ! j) \<inter> set (rss[i := rss ! i @ [n]] ! k) = {}"
      using dj fresh [OF jl] fresh [OF kl] jk True
      by (auto simp: nth_list_update)
  qed
qed

lemma refsBelow_unlinked: "refsBelow n rss \<Longrightarrow> unlinked n rss"
  by (fastforce simp: refsBelow_def unlinked_def)

lemma unlinked_new_cell: "unlinked a (rss @ [[]]) = unlinked a rss"
  by (auto simp: unlinked_def nth_append less_Suc_eq)

lemma unlinked_push: "unlinked a rss \<Longrightarrow> a \<noteq> n \<Longrightarrow> unlinked a (rss[i := rss ! i @ [n]])"
  by (auto simp: unlinked_def nth_update_cases split: if_splits)

lemma map_push:
  assumes "c < length xs" and "f y = f (xs ! c) @ [a]"
  shows "map f (xs[c := y]) = (map f xs)[c := map f xs ! c @ [a]]"
  using assms by (simp add: map_update)

lemma map_keep:
  assumes "f y = f (xs ! c)"
  shows "map f (xs[c := y]) = map f xs"
proof (cases "c < length xs")
  case True
  then have "(map f xs)[c := f (xs ! c)] = map f xs"
    by (metis list_update_id nth_map)
  with assms show ?thesis by (simp add: map_update)
next
  case False
  then show ?thesis by (simp add: list_update_beyond)
qed

lemma refsBelow_push_map:
  "g < length xs \<Longrightarrow> refsBelow n (map f xs) \<Longrightarrow>
     refsBelow (Suc n) ((map f xs)[g := f (xs ! g) @ [n]])"
  using refsBelow_push [of n "map f xs" g] by simp

lemma refsDisjoint_push_map:
  "g < length xs \<Longrightarrow> refsBelow n (map f xs) \<Longrightarrow> refsDisjoint (map f xs) \<Longrightarrow>
     refsDisjoint ((map f xs)[g := f (xs ! g) @ [n]])"
  using refsDisjoint_push [of n "map f xs" g] by simp

lemma unlinked_push_map:
  "g < length xs \<Longrightarrow> unlinked a (map f xs) \<Longrightarrow> a \<noteq> n \<Longrightarrow>
     unlinked a ((map f xs)[g := f (xs ! g) @ [n]])"
  using unlinked_push [of a "map f xs" n g] by simp

subsection \<open>Every line keeps the links in order\<close>

lemma wellLinked_initialState: "wellLinked initialState"
  by (simp add: wellLinked_def initialState_def refsBelow_def refsDisjoint_def)

lemma wellLinked_openBoundedContext:
  "wellLinked s \<Longrightarrow> wellLinked (openBoundedContext s line)"
  by (auto simp: wellLinked_def openBoundedContext_def Let_def refsBelow_new_cell less_Suc_eq)

lemma wellLinked_openAggregate:
  assumes "wellLinked s"
  shows "wellLinked (openAggregate s line)"
proof (cases "currentBoundedContext s")
  case None
  with assms show ?thesis
    by (auto simp: wellLinked_def openAggregate_def Let_def refsBelow_new_cell
          refsDisjoint_new_cell less_Suc_eq intro: refsBelow_mono)
next
  case (Some c)
  with assms have c: "c < length (contextStore s)"
    by (simp add: wellLinked_def)
  have m: "map aggregateRefs ((contextStore s)
             [c := (contextStore s ! c)
                \<lparr>aggregateRefs := aggregateRefs (contextStore s ! c) @ [length (aggregateStore s)]\<rparr>]) =
           (map aggregateRefs (contextStore s))
             [c := map aggregateRefs (contextStore s) ! c @ [length (aggregateStore s)]]"
    by (rule map_push [OF c]) simp
  from assms Some show ?thesis
    by (auto simp: wellLinked_def openAggregate_def Let_def m refsBelow_new_cell
          refsDisjoint_new_cell refsBelow_push_map less_Suc_eq)
qed

lemma wellLinked_openEntity:
  assumes "wellLinked s"
  shows "wellLinked (openEntity s line)"
proof (cases "currentAggregate s")
  case None
  with assms show ?thesis
    by (auto simp: wellLinked_def openEntity_def Let_def intro: refsBelow_mono)
next
  case (Some g)
  with assms have g: "g < length (aggregateStore s)"
    by (simp add: wellLinked_def)
  let ?cell = "(aggregateStore s ! g)
                \<lparr>entityRefs := entityRefs (aggregateStore s ! g) @ [length (entityStore s)]\<rparr>"
  have m: "map entityRefs ((aggregateStore s)[g := ?cell]) =
           (map entityRefs (aggregateStore s))
             [g := map entityRefs (aggregateStore s) ! g @ [length (entityStore s)]]"
    by (rule map_push [OF g]) simp
  have v: "map valueObjectRefs ((aggregateStore s)[g := ?cell]) = map valueObjectRefs (aggregateStore s)"
    by (rule map_keep) simp
  have e: "map enumRefs ((aggregateStore s)[g := ?cell]) = map enumRefs (aggregateStore s)"
    by (rule map_keep) simp
  from assms Some show ?thesis
    by (auto simp: wellLinked_def openEntity_def Let_def m v e refsBelow_push_map refsDisjoint_push_map)
qed

lemma wellLinked_openValueObject:
  assumes "wellLinked s"
  shows "wellLinked (openValueObject s line)"
proof (cases "currentAggregate s")
  case None
  with assms show ?thesis
    by (auto simp: wellLinked_def openValueObject_def Let_def intro: refsBelow_mono)
next
  case (Some g)
  with assms have g: "g < length (aggregateStore s)"
    by (simp add: wellLinked_def)
  let ?cell = "(aggregateStore s ! g)
                \<lparr>valueObjectRefs := valueObjectRefs (aggregateStore s ! g) @ [length (valueObjectStore s)]\<rparr>"
  have m: "map valueObjectRefs ((aggregateStore s)[g := ?cell]) =
           (map valueObjectRefs (aggregateStore s))
             [g := map valueObjectRefs (aggregateStore s) ! g @ [length (valueObjectStore s)]]"
    by (rule map_push [OF g]) simp
  have v: "map entityRefs ((aggregateStore s)[g := ?cell]) = map entityRefs (aggregateStore s)"
    by (rule map_keep) simp
  have e: "map enumRefs ((aggregateStore s)[g := ?cell]) = map enumRefs (aggregateStore s)"
    by (rule map_keep) simp
  from assms Some show ?thesis
    by (auto simp: wellLinked_def openValueObject_def Let_def m v e refsBelow_push_map refsDisjoint_push_map)
qed

lemma wellLinked_openEnum:
  assumes "wellLinked s"
  shows "wellLinked (openEnum s line)"
proof (cases "currentAggregate s")
  case None
  with assms show ?thesis
    by (auto simp: wellLinked_def openEnum_def Let_def intro: refsBelow_mono)
next
  case (Some g)
  with assms have g: "g < length (aggregateStore s)"
    by (simp add: wellLinked_def)
  let ?cell = "(aggregateStore s ! g)
                \<lparr>enumRefs := enumRefs (aggregateStore s ! g) @ [length (enumStore s)]\<rparr>"
  have m: "map enumRefs ((aggregateStore s)[g := ?cell]) =
           (map enumRefs (aggregateStore s))
             [g := map enumRefs (aggregateStore s) ! g @ [length (enumStore s)]]"
    by (rule map_push [OF g]) simp
  have v: "map entityRefs ((aggregateStore s)[g := ?cell]) = map entityRefs (aggregateStore s)"
    by (rule map_keep) simp
  have e: "map valueObjectRefs ((aggregateStore s)[g := ?cell]) = map valueObjectRefs (aggregateStore s)"
    by (rule map_keep) simp
  from assms Some show ?thesis
    by (auto simp: wellLinked_def openEnum_def Let_def m v e refsBelow_push_map refsDisjoint_push_map)
qed

lemma sameLinks_closeScopes: "sameLinks s (closeScopes s)"
  by (simp add: sameLinks_def closeScopes_def Let_def)

lemma sameLinks_pushEnumValues: "sameLinks s (pushEnumValues s e vs)"
  by (simp add: sameLinks_def pushEnumValues_def)

lemma sameLinks_pushEntityProperty: "sameLinks s (pushEntityProperty s line)"
  by (simp add: sameLinks_def pushEntityProperty_def split: option.splits)

lemma sameLinks_pushValueObjectProperty: "sameLinks s (pushValueObjectProperty s line)"
  by (simp add: sameLinks_def pushValueObjectProperty_def split: option.splits)

lemma sameLinks_trans: "sameLinks s s' \<Longrightarrow> sameLinks s' s'' \<Longrightarrow> sameLinks s s''"
  by (simp add: sameLinks_def)

lemma sameLinks_otherwise:
  assumes "\<not> isDeclarationLine line"
  shows "sameLinks s (parseLine s line)"
proof -
  have p: "sameLinks s (pushValueObjectProperty (pushEntityProperty s line) line)"
    by (rule sameLinks_trans [OF sameLinks_pushEntityProperty sameLinks_pushValueObjectProperty])
  have r: "sameLinks s (s\<lparr>entityStore := (entityStore s)[e := x]\<rparr>)" for e x
    by (simp add: sameLinks_def)
  have i: "sameLinks s s"
    by (simp add: sameLinks_def)
  from assms show ?thesis
    unfolding parseLine_def isDeclarationLine_def
    using p r i sameLinks_closeScopes sameLinks_pushEnumValues by simp
qed

lemma wellLinked_sameLinks: "sameLinks s s' \<Longrightarrow> wellLinked s \<Longrightarrow> wellLinked s'"
  by (simp add: sameLinks_def wellLinked_def)

lemma wellLinked_parseLine: "wellLinked s \<Longrightarrow> wellLinked (parseLine s line)"
proof (cases "isDeclarationLine line")
  case False
  assume "wellLinked s"
  with sameLinks_otherwise [OF False] show ?thesis
    by (rule wellLinked_sameLinks)
next
  case True
  assume "wellLinked s"
  with True show ?thesis
    unfolding parseLine_def isDeclarationLine_def
    by (auto simp: wellLinked_openBoundedContext wellLinked_openAggregate wellLinked_openEntity
          wellLinked_openValueObject wellLinked_openEnum)
qed

lemma wellLinked_parseLines: "wellLinked s \<Longrightarrow> wellLinked (parseLines s ls)"
  unfolding parseLines_def
  by (induction ls arbitrary: s) (simp_all add: wellLinked_parseLine)

subsection \<open>Every line keeps an orphan an orphan\<close>

lemma unlinked_update:
  assumes "unlinked a (map f xs)" and "a \<noteq> n" and "f y = f (xs ! c) @ [n]"
  shows "unlinked a (map f (xs[c := y]))"
proof (cases "c < length xs")
  case True
  with assms show ?thesis
    using unlinked_push_map [of c xs a f n] by (simp add: map_update)
next
  case False
  with assms(1) show ?thesis by (simp add: list_update_beyond)
qed

lemma unlinked_keep:
  assumes "unlinked a (map f xs)" and "f y = f (xs ! c)"
  shows "unlinked a (map f (xs[c := y]))"
  using assms by (simp add: map_keep)

lemma orphans_sameLinks:
  assumes "sameLinks s s'"
  shows "aggregateOrphan g s \<Longrightarrow> aggregateOrphan g s'"
    and "entityOrphan a s \<Longrightarrow> entityOrphan a s'"
    and "valueObjectOrphan a s \<Longrightarrow> valueObjectOrphan a s'"
    and "enumOrphan a s \<Longrightarrow> enumOrphan a s'"
  using assms
  by (simp_all add: sameLinks_def aggregateOrphan_def entityOrphan_def valueObjectOrphan_def
        enumOrphan_def)

lemma orphans_openBoundedContext:
  shows "aggregateOrphan g s \<Longrightarrow> aggregateOrphan g (openBoundedContext s line)"
    and "entityOrphan a s \<Longrightarrow> entityOrphan a (openBoundedContext s line)"
    and "valueObjectOrphan a s \<Longrightarrow> valueObjectOrphan a (openBoundedContext s line)"
    and "enumOrphan a s \<Longrightarrow> enumOrphan a (openBoundedContext s line)"
  by (simp_all add: openBoundedContext_def Let_def aggregateOrphan_def entityOrphan_def
        valueObjectOrphan_def enumOrphan_def unlinked_new_cell)

lemma aggregateOrphan_openAggregate:
  assumes "aggregateOrphan g s"
  shows "aggregateOrphan g (openAggregate s line)"
proof -
  from assms have g: "g < length (aggregateStore s)"
    and u: "unlinked g (map aggregateRefs (contextStore s))"
    by (simp_all add: aggregateOrphan_def)
  from g have ne: "g \<noteq> length (aggregateStore s)" by simp
  have "unlinked g (map aggregateRefs ((contextStore s)
          [c := (contextStore s ! c)
             \<lparr>aggregateRefs := aggregateRefs (contextStore s ! c) @ [length (aggregateStore s)]\<rparr>]))"
    for c
    by (rule unlinked_update [OF u ne]) simp
  with g u show ?thesis
    by (simp add: aggregateOrphan_def openAggregate_def Let_def split: option.splits)
qed

lemma others_openAggregate:
  shows "entityOrphan a s \<Longrightarrow> entityOrphan a (openAggregate s line)"
    and "valueObjectOrphan a s \<Longrightarrow> valueObjectOrphan a (openAggregate s line)"
    and "enumOrphan a s \<Longrightarrow> enumOrphan a (openAggregate s line)"
  by (simp_all add: openAggregate_def Let_def entityOrphan_def valueObjectOrphan_def
        enumOrphan_def unlinked_new_cell split: option.splits)

lemma entityOrphan_openEntity:
  assumes "entityOrphan a s"
  shows "entityOrphan a (openEntity s line)"
proof -
  from assms have a: "a < length (entityStore s)"
    and u: "unlinked a (map entityRefs (aggregateStore s))"
    by (simp_all add: entityOrphan_def)
  from a have ne: "a \<noteq> length (entityStore s)" by simp
  have "unlinked a (map entityRefs ((aggregateStore s)
          [g := (aggregateStore s ! g)
             \<lparr>entityRefs := entityRefs (aggregateStore s ! g) @ [length (entityStore s)]\<rparr>]))"
    for g
    by (rule unlinked_update [OF u ne]) simp
  with a u show ?thesis
    by (simp add: entityOrphan_def openEntity_def Let_def split: option.splits)
qed

lemma others_openEntity:
  shows "aggregateOrphan g s \<Longrightarrow> aggregateOrphan g (openEntity s line)"
    and "valueObjectOrphan a s \<Longrightarrow> valueObjectOrphan a (openEntity s line)"
    and "enumOrphan a s \<Longrightarrow> enumOrphan a (openEntity s line)"
  by (simp_all add: openEntity_def Let_def aggregateOrphan_def valueObjectOrphan_def
        enumOrphan_def unlinked_keep split: option.splits)

lemma valueObjectOrphan_openValueObject:
  assumes "valueObjectOrphan a s"
  shows "valueObjectOrphan a (openValueObject s line)"
proof -
  from assms have a: "a < length (valueObjectStore s)"
    and u: "unlinked a (map valueObjectRefs (aggregateStore s))"
    by (simp_all add: valueObjectOrphan_def)
  from a have ne: "a \<noteq> length (valueObjectStore s)" by simp
  have "unlinked a (map valueObjectRefs ((aggregateStore s)
          [g := (aggregateStore s ! g)
             \<lparr>valueObjectRefs := valueObjectRefs (aggregateStore s ! g) @ [length (valueObjectStore s)]\<rparr>]))"
    for g
    by (rule unlinked_update [OF u ne]) simp
  with a u show ?thesis
    by (simp add: valueObjectOrphan_def openValueObject_def Let_def split: option.splits)
qed

lemma others_openValueObject:
  shows "aggregateOrphan g s \<Longrightarrow> aggregateOrphan g (openValueObject s line)"
    and "entityOrphan a s \<Longrightarrow> entityOrphan a (openValueObject s line)"
    and "enumOrphan a s \<Longrightarrow> enumOrphan a (openValueObject s line)"
  by (simp_all add: openValueObject_def Let_def aggregateOrphan_def entityOrphan_def
        enumOrphan_def unlinked_keep split: option.splits)

lemma enumOrphan_openEnum:
  assumes "enumOrphan a s"
  shows "enumOrphan a (openEnum s line)"
proof -
  from assms have a: "a < length (enumStore s)"
    and u: "unlinked a (map enumRefs (aggregateStore s))"
    by (simp_all add: enumOrphan_def)
  from a have ne: "a \<noteq> length (enumStore s)" by simp
  have "unlinked a (map enumRefs ((aggregateStore s)
          [g := (aggregateStore s ! g)
             \<lparr>enumRefs := enumRefs (aggregateStore s ! g) @ [length (enumStore s)]\<rparr>]))"
    for g
    by (rule unlinked_update [OF u ne]) simp
  with a u show ?thesis
    by (simp add: enumOrphan_def openEnum_def Let_def split: option.splits)
qed

lemma others_openEnum:
  shows "aggregateOrphan g s \<Longrightarrow> aggregateOrphan g (openEnum s line)"
    and "entityOrphan a s \<Longrightarrow> entityOrphan a (openEnum s line)"
    and "valueObjectOrphan a s \<Longrightarrow> valueObjectOrphan a (openEnum s line)"
  by (simp_all add: openEnum_def Let_def aggregateOrphan_def entityOrphan_def
        valueObjectOrphan_def unlinked_keep split: option.splits)

lemma parseLine_cases:
  assumes "\<And>s. P s \<Longrightarrow> P (openBoundedContext s line)"
    and "\<And>s. P s \<Longrightarrow> P (openAggregate s line)"
    and "\<And>s. P s \<Longrightarrow> P (openEntity s line)"
    and "\<And>s. P s \<Longrightarrow> P (openValueObject s line)"
    and "\<And>s. P s \<Longrightarrow> P (openEnum s line)"
    and "\<And>s s'. sameLinks s s' \<Longrightarrow> P s \<Longrightarrow> P s'"
    and "P s"
  shows "P (parseLine s line)"
proof (cases "isDeclarationLine line")
  case False
  from assms(6) [OF sameLinks_otherwise [OF False] assms(7)] show ?thesis .
next
  case True
  then show ?thesis
    unfolding parseLine_def isDeclarationLine_def
    using assms(1-5) [OF assms(7)] by auto
qed

lemma aggregateOrphan_parseLine: "aggregateOrphan g s \<Longrightarrow> aggregateOrphan g (parseLine s line)"
  by (rule parseLine_cases [where P = "aggregateOrphan g"])
     (simp_all add: orphans_openBoundedContext aggregateOrphan_openAggregate others_openEntity
        others_openValueObject others_openEnum orphans_sameLinks)

lemma entityOrphan_parseLine: "entityOrphan a s \<Longrightarrow> entityOrphan a (parseLine s line)"
  by (rule parseLine_cases [where P = "entityOrphan a"])
     (simp_all add: orphans_openBoundedContext others_openAggregate entityOrphan_openEntity
        others_openValueObject others_openEnum orphans_sameLinks)

lemma valueObjectOrphan_parseLine:
  "valueObjectOrphan a s \<Longrightarrow> valueObjectOrphan a (parseLine s line)"
  by (rule parseLine_cases [where P = "valueObjectOrphan a"])
     (simp_all add: orphans_openBoundedContext others_openAggregate others_openEntity
        valueObjectOrphan_openValueObject others_openEnum orphans_sameLinks)

lemma enumOrphan_parseLine: "enumOrphan a s \<Longrightarrow> enumOrphan a (parseLine s line)"
  by (rule parseLine_cases [where P = "enumOrphan a"])
     (simp_all add: orphans_openBoundedContext others_openAggregate others_openEntity
        others_openValueObject enumOrphan_openEnum orphans_sameLinks)

subsection \<open>Orphans are not in the model\<close>

lemma startsWith_first:
  "startsWith line (c # p) \<Longrightarrow> c \<noteq> d \<Longrightarrow> \<not> startsWith line (d # q)"
  by (cases line) (auto simp: startsWith_def)

lemma parseLine_Aggregate:
  assumes "startsWith line ''Aggregate ''"
  shows "parseLine s line = openAggregate s line"
proof -
  have "\<not> startsWith line ''BoundedContext ''"
    by (rule startsWith_first [OF assms]) simp
  with assms show ?thesis by (simp add: parseLine_def)
qed

lemma parseLine_Entity:
  assumes "startsWith line ''Entity ''"
  shows "parseLine s line = openEntity s line"
proof -
  have "\<not> startsWith line ''BoundedContext ''" "\<not> startsWith line ''Aggregate ''"
    by (rule startsWith_first [OF assms], simp)+
  with assms show ?thesis by (simp add: parseLine_def)
qed

lemma parseLine_ValueObject:
  assumes "startsWith line ''ValueObject ''"
  shows "parseLine s line = openValueObject s line"
proof -
  have "\<not> startsWith line ''BoundedContext ''" "\<not> startsWith line ''Aggregate ''"
    "\<not> startsWith line ''Entity ''"
    by (rule startsWith_first [OF assms], simp)+
  with assms show ?thesis by (simp add: parseLine_def)
qed

lemma parseLine_enum:
  assumes "startsWith line ''enum ''"
  shows "parseLine s line = openEnum s line"
proof -
  have "\<not> startsWith line ''BoundedContext ''" "\<not> startsWith line ''Aggregate ''"
    "\<not> startsWith line ''Entity ''" "\<not> startsWith line ''ValueObject ''"
    by (rule startsWith_first [OF assms], simp)+
  with assms show ?thesis by (simp add: parseLine_def)
qed

lemma openAggregate_orphan:
  assumes "wellLinked s" and "currentBoundedContext s = None"
  shows "aggregateOrphan (length (aggregateStore s)) (openAggregate s line)"
  using assms
  by (simp add: aggregateOrphan_def openAggregate_def Let_def wellLinked_def refsBelow_unlinked)

lemma openEntity_orphan:
  assumes "wellLinked s" and "currentAggregate s = None"
  shows "entityOrphan (length (entityStore s)) (openEntity s line)"
  using assms
  by (simp add: entityOrphan_def openEntity_def Let_def wellLinked_def refsBelow_unlinked)

lemma openValueObject_orphan:
  assumes "wellLinked s" and "currentAggregate s = None"
  shows "valueObjectOrphan (length (valueObjectStore s)) (openValueObject s line)"
  using assms
  by (simp add: valueObjectOrphan_def openValueObject_def Let_def wellLinked_def refsBelow_unlinked)

lemma openEnum_orphan:
  assumes "wellLinked s" and "currentAggregate s = None"
  shows "enumOrphan (length (enumStore s)) (openEnum s line)"
  using assms
  by (simp add: enumOrphan_def openEnum_def Let_def wellLinked_def refsBelow_unlinked)

lemma reachableAggregates_linked:
  assumes "wellLinked s" and "g \<in> set (reachableAggregates s)"
  shows "\<exists>c < length (contextStore s). g \<in> set (aggregateRefs (contextStore s ! c))"
  using assms by (auto simp: reachableAggregates_def wellLinked_def)

lemma reachableAggregates_valid:
  assumes "wellLinked s" and "g \<in> set (reachableAggregates s)"
  shows "g < length (aggregateStore s)"
proof -
  from reachableAggregates_linked [OF assms] obtain c
    where "c < length (contextStore s)" "g \<in> set (aggregateRefs (contextStore s ! c))" by blast
  with assms(1) show ?thesis
    by (auto simp: wellLinked_def refsBelow_def)
qed

lemma aggregateOrphan_unreachable:
  assumes "wellLinked s" and "aggregateOrphan g s"
  shows "g \<notin> set (reachableAggregates s)"
proof
  assume "g \<in> set (reachableAggregates s)"
  from reachableAggregates_linked [OF assms(1) this] obtain c
    where "c < length (contextStore s)" "g \<in> set (aggregateRefs (contextStore s ! c))" by blast
  with assms(2) show False
    by (auto simp: aggregateOrphan_def unlinked_def)
qed

lemma aggregateOrphan_contents:
  assumes "wellLinked s" and "aggregateOrphan g s"
  shows "set (entityRefs (aggregateStore s ! g)) \<inter> set (reachableEntities s) = {}"
    and "set (valueObjectRefs (aggregateStore s ! g)) \<inter> set (reachableValueObjects s) = {}"
    and "set (enumRefs (aggregateStore s ! g)) \<inter> set (reachableEnums s) = {}"
proof -
  have g: "g < length (aggregateStore s)"
    using assms(2) by (simp add: aggregateOrphan_def)
  have other: "h < length (aggregateStore s) \<and> h \<noteq> g" if "h \<in> set (reachableAggregates s)" for h
    using that reachableAggregates_valid [OF assms(1)] aggregateOrphan_unreachable [OF assms]
    by blast
  have d: "refsDisjoint (map entityRefs (aggregateStore s))"
    "refsDisjoint (map valueObjectRefs (aggregateStore s))"
    "refsDisjoint (map enumRefs (aggregateStore s))"
    using assms(1) by (simp_all add: wellLinked_def)
  have dj: "set (f (aggregateStore s ! g)) \<inter> set (f (aggregateStore s ! h)) = {}"
    if "refsDisjoint (map f (aggregateStore s))" "h \<in> set (reachableAggregates s)" for f h
    using that(1) other [OF that(2)] g
    unfolding refsDisjoint_def by (metis length_map nth_map)
  show "set (entityRefs (aggregateStore s ! g)) \<inter> set (reachableEntities s) = {}"
    using dj [OF d(1)] by (auto simp: reachableEntities_def)
  show "set (valueObjectRefs (aggregateStore s ! g)) \<inter> set (reachableValueObjects s) = {}"
    using dj [OF d(2)] by (auto simp: reachableValueObjects_def)
  show "set (enumRefs (aggregateStore s ! g)) \<inter> set (reachableEnums s) = {}"
    using dj [OF d(3)] by (auto simp: reachableEnums_def)
qed

lemma unlinked_unreachable:
  assumes "wellLinked s" and "unlinked a (map f (aggregateStore s))"
  shows "a \<notin> set (concat (map (\<lambda>g. f (aggregateStore s ! g)) (reachableAggregates s)))"
proof
  assume "a \<in> set (concat (map (\<lambda>g. f (aggregateStore s ! g)) (reachableAggregates s)))"
  then obtain g where g: "g \<in> set (reachableAggregates s)" and a: "a \<in> set (f (aggregateStore s ! g))"
    by auto
  from reachableAggregates_valid [OF assms(1) g] a assms(2) show False
    by (auto simp: unlinked_def)
qed

lemma entityOrphan_unreachable:
  "wellLinked s \<Longrightarrow> entityOrphan a s \<Longrightarrow> a \<notin> set (reachableEntities s)"
  unfolding reachableEntities_def entityOrphan_def by (blast dest: unlinked_unreachable)

lemma valueObjectOrphan_unreachable:
  "wellLinked s \<Longrightarrow> valueObjectOrphan a s \<Longrightarrow> a \<notin> set (reachableValueObjects s)"
  unfolding reachableValueObjects_def valueObjectOrphan_def by (blast dest: unlinked_unreachable)

lemma enumOrphan_unreachable:
  "wellLinked s \<Longrightarrow> enumOrphan a s \<Longrightarrow> a \<notin> set (reachableEnums s)"
  unfolding reachableEnums_def enumOrphan_def by (blast dest: unlinked_unreachable)

lemma model_aggregates:
  "concat (map aggregates (modelOf s)) = map (aggregateAt s) (reachableAggregates s)"
  by (simp add: modelOf_def contextAt_def reachableAggregates_def Let_def map_concat comp_def)

lemma model_units:
  "concat (map entities (concat (map aggregates (modelOf s)))) =
     map (\<lambda>a. entityStore s ! a) (reachableEntities s)"
  "concat (map valueObjects (concat (map aggregates (modelOf s)))) =
     map (\<lambda>a. valueObjectStore s ! a) (reachableValueObjects s)"
  "concat (map enums (concat (map aggregates (modelOf s)))) =
     map (\<lambda>a. enumStore s ! a) (reachableEnums s)"
  unfolding model_aggregates
  by (simp_all add: aggregateAt_def reachableEntities_def reachableValueObjects_def
        reachableEnums_def Let_def map_concat comp_def)

lemma parseLines_append: "parseLines s (xs @ ys) = parseLines (parseLines s xs) ys"
  by (simp add: parseLines_def)

lemma parseLines_Cons: "parseLines s (x # xs) = parseLines (parseLine s x) xs"
  by (simp add: parseLines_def)

lemma aggregateOrphan_parseLines:
  "aggregateOrphan g s \<Longrightarrow> aggregateOrphan g (parseLines s ls)"
  unfolding parseLines_def
  by (induction ls arbitrary: s) (simp_all add: aggregateOrphan_parseLine)

lemma entityOrphan_parseLines:
  "entityOrphan a s \<Longrightarrow> entityOrphan a (parseLines s ls)"
  unfolding parseLines_def
  by (induction ls arbitrary: s) (simp_all add: entityOrphan_parseLine)

lemma valueObjectOrphan_parseLines:
  "valueObjectOrphan a s \<Longrightarrow> valueObjectOrphan a (parseLines s ls)"
  unfolding parseLines_def
  by (induction ls arbitrary: s) (simp_all add: valueObjectOrphan_parseLine)

lemma enumOrphan_parseLines:
  "enumOrphan a s \<Longrightarrow> enumOrphan a (parseLines s ls)"
  unfolding parseLines_def
  by (induction ls arbitrary: s) (simp_all add: enumOrphan_parseLine)

text \<open>
  C9. The parser is a total function, and the model it returns is read from the reachable
  addresses only. An aggregate opened by an \<open>Aggregate\<close> line while no bounded context is open
  becomes the current aggregate but is in no context's array at the end, and the entities, value
  objects and enumerations in its own arrays are not among those of the model. An entity, value
  object or enumeration opened while no aggregate is open becomes the current one but is in no
  reachable aggregate's array at the end, so neither it nor the properties or values pushed into
  it are in the model.
\<close>

theorem orphan_units_discarded:
  assumes "logicalLines input = before @ line # rest"
    and "s = parseLines initialState before"
    and "final = parseLines (parseLine s line) rest"
  shows "parseCML input = modelOf final
       \<and> concat (map aggregates (modelOf final)) = map (aggregateAt final) (reachableAggregates final)
       \<and> concat (map entities (concat (map aggregates (modelOf final)))) =
           map (\<lambda>a. entityStore final ! a) (reachableEntities final)
       \<and> concat (map valueObjects (concat (map aggregates (modelOf final)))) =
           map (\<lambda>a. valueObjectStore final ! a) (reachableValueObjects final)
       \<and> concat (map enums (concat (map aggregates (modelOf final)))) =
           map (\<lambda>a. enumStore final ! a) (reachableEnums final)
       \<and> (currentBoundedContext s = None \<and> startsWith line ''Aggregate '' \<longrightarrow>
            currentAggregate (parseLine s line) = Some (length (aggregateStore s))
            \<and> length (aggregateStore s) \<notin> set (reachableAggregates final)
            \<and> set (entityRefs (aggregateStore final ! length (aggregateStore s)))
                \<inter> set (reachableEntities final) = {}
            \<and> set (valueObjectRefs (aggregateStore final ! length (aggregateStore s)))
                \<inter> set (reachableValueObjects final) = {}
            \<and> set (enumRefs (aggregateStore final ! length (aggregateStore s)))
                \<inter> set (reachableEnums final) = {})
       \<and> (currentAggregate s = None \<and> startsWith line ''Entity '' \<longrightarrow>
            currentEntity (parseLine s line) = Some (length (entityStore s))
            \<and> length (entityStore s) \<notin> set (reachableEntities final))
       \<and> (currentAggregate s = None \<and> startsWith line ''ValueObject '' \<longrightarrow>
            currentValueObject (parseLine s line) = Some (length (valueObjectStore s))
            \<and> length (valueObjectStore s) \<notin> set (reachableValueObjects final))
       \<and> (currentAggregate s = None \<and> startsWith line ''enum '' \<longrightarrow>
            currentEnum (parseLine s line) = Some (length (enumStore s))
            \<and> length (enumStore s) \<notin> set (reachableEnums final))"
proof -
  have ws: "wellLinked s"
    unfolding assms(2) by (rule wellLinked_parseLines [OF wellLinked_initialState])
  have wf: "wellLinked final"
    unfolding assms(3) by (rule wellLinked_parseLines [OF wellLinked_parseLine [OF ws]])
  have model: "parseCML input = modelOf final"
    by (simp add: parseCML_def assms parseLines_append parseLines_Cons)
  have agg: "currentAggregate (parseLine s line) = Some (length (aggregateStore s))
            \<and> length (aggregateStore s) \<notin> set (reachableAggregates final)
            \<and> set (entityRefs (aggregateStore final ! length (aggregateStore s)))
                \<inter> set (reachableEntities final) = {}
            \<and> set (valueObjectRefs (aggregateStore final ! length (aggregateStore s)))
                \<inter> set (reachableValueObjects final) = {}
            \<and> set (enumRefs (aggregateStore final ! length (aggregateStore s)))
                \<inter> set (reachableEnums final) = {}"
    if c: "currentBoundedContext s = None" and l: "startsWith line ''Aggregate ''"
  proof -
    have p: "parseLine s line = openAggregate s line"
      by (rule parseLine_Aggregate [OF l])
    have cur: "currentAggregate (parseLine s line) = Some (length (aggregateStore s))"
      using c by (simp add: p openAggregate_def Let_def)
    have "aggregateOrphan (length (aggregateStore s)) (parseLine s line)"
      unfolding p by (rule openAggregate_orphan [OF ws c])
    then have o: "aggregateOrphan (length (aggregateStore s)) final"
      unfolding assms(3) by (rule aggregateOrphan_parseLines)
    from cur aggregateOrphan_unreachable [OF wf o] aggregateOrphan_contents [OF wf o]
    show ?thesis by simp
  qed
  have ent: "currentEntity (parseLine s line) = Some (length (entityStore s))
            \<and> length (entityStore s) \<notin> set (reachableEntities final)"
    if c: "currentAggregate s = None" and l: "startsWith line ''Entity ''"
  proof -
    have p: "parseLine s line = openEntity s line"
      by (rule parseLine_Entity [OF l])
    have cur: "currentEntity (parseLine s line) = Some (length (entityStore s))"
      using c by (simp add: p openEntity_def Let_def)
    have "entityOrphan (length (entityStore s)) (parseLine s line)"
      unfolding p by (rule openEntity_orphan [OF ws c])
    then have "entityOrphan (length (entityStore s)) final"
      unfolding assms(3) by (rule entityOrphan_parseLines)
    with cur entityOrphan_unreachable [OF wf] show ?thesis by simp
  qed
  have vo: "currentValueObject (parseLine s line) = Some (length (valueObjectStore s))
            \<and> length (valueObjectStore s) \<notin> set (reachableValueObjects final)"
    if c: "currentAggregate s = None" and l: "startsWith line ''ValueObject ''"
  proof -
    have p: "parseLine s line = openValueObject s line"
      by (rule parseLine_ValueObject [OF l])
    have cur: "currentValueObject (parseLine s line) = Some (length (valueObjectStore s))"
      using c by (simp add: p openValueObject_def Let_def)
    have "valueObjectOrphan (length (valueObjectStore s)) (parseLine s line)"
      unfolding p by (rule openValueObject_orphan [OF ws c])
    then have "valueObjectOrphan (length (valueObjectStore s)) final"
      unfolding assms(3) by (rule valueObjectOrphan_parseLines)
    with cur valueObjectOrphan_unreachable [OF wf] show ?thesis by simp
  qed
  have en: "currentEnum (parseLine s line) = Some (length (enumStore s))
            \<and> length (enumStore s) \<notin> set (reachableEnums final)"
    if c: "currentAggregate s = None" and l: "startsWith line ''enum ''"
  proof -
    have p: "parseLine s line = openEnum s line"
      by (rule parseLine_enum [OF l])
    have cur: "currentEnum (parseLine s line) = Some (length (enumStore s))"
      using c by (simp add: p openEnum_def Let_def)
    have "enumOrphan (length (enumStore s)) (parseLine s line)"
      unfolding p by (rule openEnum_orphan [OF ws c])
    then have "enumOrphan (length (enumStore s)) final"
      unfolding assms(3) by (rule enumOrphan_parseLines)
    with cur enumOrphan_unreachable [OF wf] show ?thesis by simp
  qed
  show ?thesis
    using model model_aggregates [of final] model_units [of final] agg ent vo en
    by (intro conjI impI) simp_all
qed

theorem orphan_units_discarded_witness:
  "logicalLines orphanText = [] @ ''Aggregate Lost {'' # orphanLines
   \<and> currentBoundedContext initialState = None \<and> startsWith ''Aggregate Lost {'' ''Aggregate ''
   \<and> reachableAggregates (parseLines (parseLine initialState ''Aggregate Lost {'') orphanLines) = [1]
   \<and> entityRefs (aggregateStore
         (parseLines (parseLine initialState ''Aggregate Lost {'') orphanLines) ! 0) = [0]
   \<and> reachableEntities (parseLines (parseLine initialState ''Aggregate Lost {'') orphanLines) = [1]
   \<and> parseCML orphanText =
       [\<lparr>name = ''Sales'',
         aggregates =
           [\<lparr>name = ''Order'',
             entities = [\<lparr>name = ''Order'', properties = [], isAggregateRoot = False\<rparr>],
             valueObjects = [], enums = []\<rparr>]\<rparr>]
   \<and> logicalLines strayText = [] @ ''Entity Stray {'' # strayLines
   \<and> currentAggregate initialState = None \<and> startsWith ''Entity Stray {'' ''Entity ''
   \<and> reachableEntities (parseLines (parseLine initialState ''Entity Stray {'') strayLines) = []
   \<and> parseCML strayText =
       [\<lparr>name = ''Sales'',
         aggregates = [\<lparr>name = ''Order'', entities = [], valueObjects = [], enums = []\<rparr>]\<rparr>]"
proof -
  have l1: "logicalLines orphanText = [] @ ''Aggregate Lost {'' # orphanLines"
    by code_simp
  have l2: "logicalLines strayText = [] @ ''Entity Stray {'' # strayLines"
    by code_simp
  have s0: "initialState = parseLines initialState []"
    by (simp add: parseLines_def)
  have c: "currentBoundedContext initialState = None \<and> currentAggregate initialState = None"
    by (simp add: initialState_def)
  have p: "startsWith ''Aggregate Lost {'' ''Aggregate '' \<and> startsWith ''Entity Stray {'' ''Entity ''"
    by code_simp
  have r1: "reachableAggregates (parseLines (parseLine initialState ''Aggregate Lost {'') orphanLines) = [1]"
    by code_simp
  have r2: "entityRefs (aggregateStore
         (parseLines (parseLine initialState ''Aggregate Lost {'') orphanLines) ! 0) = [0]"
    by code_simp
  have r3: "reachableEntities (parseLines (parseLine initialState ''Aggregate Lost {'') orphanLines) = [1]"
    by code_simp
  have r4: "reachableEntities (parseLines (parseLine initialState ''Entity Stray {'') strayLines) = []"
    by code_simp
  have m1: "parseCML orphanText =
       [\<lparr>name = ''Sales'',
         aggregates =
           [\<lparr>name = ''Order'',
             entities = [\<lparr>name = ''Order'', properties = [], isAggregateRoot = False\<rparr>],
             valueObjects = [], enums = []\<rparr>]\<rparr>]"
    by code_simp
  have m2: "parseCML strayText =
       [\<lparr>name = ''Sales'',
         aggregates = [\<lparr>name = ''Order'', entities = [], valueObjects = [], enums = []\<rparr>]\<rparr>]"
    by code_simp
  from orphan_units_discarded [OF l1 s0 refl] orphan_units_discarded [OF l2 s0 refl]
    l1 l2 c p r1 r2 r3 r4 m1 m2
  show ?thesis by simp
qed

end
